theory Spec2Isabelle
  imports Complex_Main "HOL-Library.AList"
begin

section \<open>Exhaust wrap template generator: the model\<close>

text \<open>
  A shallow embedding of \<^verbatim>\<open>pipe_template_generator.py\<close>. Python floats are read as
  real numbers throughout: every formula below is the source's arithmetic with exact
  real operations in place of IEEE double operations. Exceptions are values of the type
  \<open>error\<close>, and a function that can raise returns a sum with the error on the left.
\<close>

subsection \<open>Inputs and errors\<close>

text \<open>The property group \<^verbatim>\<open>PipeTemplateProperties\<close> (the output folder is left out).\<close>

record PipeSpec =
  pipe_od :: real
  bend_radius_multiplier :: real
  bend_angle :: real
  num_segments :: int
  wrap_thickness :: real
  overlap :: real

datatype error = NoUVLayer | ValueError | ZeroDivisionError | KeyError

type_synonym point = "real \<times> real"
type_synonym edge = "point \<times> point"
type_synonym polygon = "point list"

text \<open>Python's true division \<^verbatim>\<open>a / b\<close>, which raises on a zero divisor.\<close>

definition py_div :: "real \<Rightarrow> real \<Rightarrow> error + real" where
  "py_div a b = (if b = 0 then Inl ZeroDivisionError else Inr (a / b))"

text \<open>Sequencing of two steps of which the first may raise.\<close>

definition bind_err :: "error + 'a \<Rightarrow> ('a \<Rightarrow> error + 'b) \<Rightarrow> error + 'b" where
  "bind_err m f = (case m of Inl e \<Rightarrow> Inl e | Inr x \<Rightarrow> f x)"

text \<open>\<^verbatim>\<open>math.radians\<close>.\<close>

definition radians :: "real \<Rightarrow> real" where
  "radians x = x * (pi / 180)"

subsection \<open>\<^verbatim>\<open>extract_uv_data\<close>: bounds, boundary edges, dimensions\<close>

text \<open>
  The two dictionaries returned by \<^verbatim>\<open>extract_uv_data\<close>. The keys of \<^verbatim>\<open>boundary_data\<close>
  carry the prefix \<open>bd_\<close>, and those keys of \<^verbatim>\<open>uv_data\<close> that it shares with
  \<^verbatim>\<open>boundary_data\<close> or with the property group carry the prefix \<open>uv_\<close>.
\<close>

record UVData =
  uv_polygons :: "polygon list"
  uv_min_u :: real
  uv_max_u :: real
  uv_min_v :: real
  uv_max_v :: real
  pipe_circ_mm :: real
  pipe_arc_mm :: real
  wrap_width :: real
  wrap_arc_length :: real
  uv_overlap :: real

record BoundaryData =
  bd_boundary_edges :: "edge list"
  bd_min_u :: real
  bd_max_u :: real
  bd_min_v :: real
  bd_max_v :: real

text \<open>
  The builtins \<^verbatim>\<open>min\<close> and \<^verbatim>\<open>max\<close> over an iterable: they raise \<^verbatim>\<open>ValueError\<close> on an
  empty one, and otherwise keep the first extremal element met.
\<close>

definition py_min :: "real list \<Rightarrow> error + real" where
  "py_min xs = (case xs of [] \<Rightarrow> Inl ValueError
                | x # rest \<Rightarrow> Inr (fold (\<lambda>y m. if y < m then y else m) rest x))"

definition py_max :: "real list \<Rightarrow> error + real" where
  "py_max xs = (case xs of [] \<Rightarrow> Inl ValueError
                | x # rest \<Rightarrow> Inr (fold (\<lambda>y m. if y > m then y else m) rest x))"

text \<open>Python's order on tuples of two floats, and \<^verbatim>\<open>tuple(sorted([v1, v2]))\<close>.\<close>

definition tuple_lt :: "point \<Rightarrow> point \<Rightarrow> bool" where
  "tuple_lt a b = (fst a < fst b \<or> (fst a = fst b \<and> snd a < snd b))"

definition sorted_tuple :: "point \<Rightarrow> point \<Rightarrow> edge" where
  "sorted_tuple v1 v2 = (if tuple_lt v2 v1 then (v2, v1) else (v1, v2))"

text \<open>
  A \<^verbatim>\<open>dict\<close> is an association list in insertion order: \<open>AList.update\<close> overwrites the
  value of a key that is present, in place, and appends a new key at the end, as
  assignment to a Python dictionary does.
\<close>

definition dict_get :: "('k \<times> 'v) list \<Rightarrow> 'k \<Rightarrow> 'v \<Rightarrow> 'v" where
  "dict_get d k dflt = (case map_of d k of None \<Rightarrow> dflt | Some v \<Rightarrow> v)"

type_synonym edge_dicts = "(edge \<times> nat) list \<times> (edge \<times> edge) list"

text \<open>The body of the inner loop (lines 362 to 367) on the pair \<open>(edge_count, edge_order)\<close>.\<close>

definition count_edge :: "point \<Rightarrow> point \<Rightarrow> edge_dicts \<Rightarrow> edge_dicts" where
  "count_edge v1 v2 st =
     (case st of (edge_count, edge_order) \<Rightarrow>
        (let edge_sorted = sorted_tuple v1 v2;
             edge_count' = AList.update edge_sorted (dict_get edge_count edge_sorted 0 + 1) edge_count;
             edge_order' = (if map_of edge_order edge_sorted = None
                            then AList.update edge_sorted (v1, v2) edge_order
                            else edge_order)
         in (edge_count', edge_order')))"

text \<open>The loop over one polygon (lines 360 to 367) and over all polygons (line 359).\<close>

definition count_polygon :: "polygon \<Rightarrow> edge_dicts \<Rightarrow> edge_dicts" where
  "count_polygon poly_uvs st =
     (let num_verts = length poly_uvs
      in fold (\<lambda>i. count_edge (poly_uvs ! i) (poly_uvs ! ((i + 1) mod num_verts)))
              [0..<num_verts] st)"

definition count_polygons :: "polygon list \<Rightarrow> edge_dicts" where
  "count_polygons polygons = fold count_polygon polygons ([], [])"

text \<open>
  The comprehension of lines 370 to 374: the items of \<open>edge_count\<close> in insertion order,
  those of count 1 looked up in \<open>edge_order\<close> (a missing key would raise \<^verbatim>\<open>KeyError\<close>).
\<close>

fun collect_boundary :: "(edge \<times> nat) list \<Rightarrow> (edge \<times> edge) list \<Rightarrow> error + edge list" where
  "collect_boundary [] edge_order = Inr []"
| "collect_boundary ((e, count) # items) edge_order =
     (if count = 1
      then (case map_of edge_order e of
              None \<Rightarrow> Inl KeyError
            | Some d \<Rightarrow> bind_err (collect_boundary items edge_order) (\<lambda>ds. Inr (d # ds)))
      else collect_boundary items edge_order)"

text \<open>
  The dimension block (lines 376 to 390), returning
  \<open>(base_circ, base_arc, wrap_width, wrap_arc)\<close>. The division by \<open>num_segments\<close> is the
  only operation of the block that can raise.
\<close>

definition calc_dimensions :: "PipeSpec \<Rightarrow> error + (real \<times> real \<times> real \<times> real)" where
  "calc_dimensions props =
     (let bend_centerline_radius = pipe_od props * bend_radius_multiplier props in
      bind_err (py_div (bend_angle props) (of_int (num_segments props))) (\<lambda>segment_angle.
         (let segment_angle_rad = radians segment_angle;
              base_circ = pi * pipe_od props;
              base_arc = bend_centerline_radius * segment_angle_rad;
              pipe_radius = pipe_od props / 2;
              wrap_radius = pipe_radius + wrap_thickness props;
              wrap_circ = 2 * pi * wrap_radius;
              wrap_w = wrap_circ + overlap props;
              wrap_distance = bend_centerline_radius + wrap_thickness props;
              wrap_arc = wrap_distance * segment_angle_rad
          in Inr (base_circ, base_arc, wrap_w, wrap_arc))))"

text \<open>
  The whole function. Its first argument is the list of per-face UV polygons read from the
  active UV layer, \<open>None\<close> when the mesh has no UV layer.
\<close>

definition extract_uv_data :: "polygon list option \<Rightarrow> PipeSpec \<Rightarrow> error + (UVData \<times> BoundaryData)" where
  "extract_uv_data uv_layer props =
     (case uv_layer of
        None \<Rightarrow> Inl NoUVLayer
      | Some polygons \<Rightarrow>
         (let all_uvs = concat polygons in
          bind_err (py_min (map fst all_uvs)) (\<lambda>mn_u.
          bind_err (py_max (map fst all_uvs)) (\<lambda>mx_u.
          bind_err (py_min (map snd all_uvs)) (\<lambda>mn_v.
          bind_err (py_max (map snd all_uvs)) (\<lambda>mx_v.
          (case count_polygons polygons of (edge_count, edge_order) \<Rightarrow>
          bind_err (collect_boundary edge_count edge_order) (\<lambda>bes.
          bind_err (calc_dimensions props) (\<lambda>(base_circ, base_arc, wrap_w, wrap_arc).
            Inr (\<lparr>uv_polygons = polygons, uv_min_u = mn_u, uv_max_u = mx_u,
                   uv_min_v = mn_v, uv_max_v = mx_v,
                   pipe_circ_mm = base_circ, pipe_arc_mm = base_arc,
                   wrap_width = wrap_w, wrap_arc_length = wrap_arc,
                   uv_overlap = overlap props\<rparr>,
                 \<lparr>bd_boundary_edges = bes, bd_min_u = mn_u, bd_max_u = mx_u,
                   bd_min_v = mn_v, bd_max_v = mx_v\<rparr>))))))))))"

subsection \<open>Notions used to state the properties of the boundary extraction\<close>

text \<open>
  The directed edges of a polygon are its consecutive vertex pairs, the pair from the last
  vertex back to the first included; \<open>all_edges\<close> lists them in polygon iteration order.
  The undirected key of a directed edge is its sorted endpoint pair, and \<open>occurrences\<close>
  counts the directed edges with a given key.
\<close>

definition polygon_edges :: "polygon \<Rightarrow> edge list" where
  "polygon_edges p = map (\<lambda>i. (p ! i, p ! ((i + 1) mod length p))) [0..<length p]"

definition all_edges :: "polygon list \<Rightarrow> edge list" where
  "all_edges polygons = concat (map polygon_edges polygons)"

definition edge_key :: "edge \<Rightarrow> edge" where
  "edge_key e = sorted_tuple (fst e) (snd e)"

definition occurrences :: "edge list \<Rightarrow> edge \<Rightarrow> nat" where
  "occurrences es k = length (filter (\<lambda>e. edge_key e = k) es)"

text \<open>The directed edges that are the first of their key, given the keys seen before.\<close>

fun first_occ :: "edge set \<Rightarrow> edge list \<Rightarrow> edge list" where
  "first_occ seen [] = []"
| "first_occ seen (e # es) =
     (if edge_key e \<in> seen then first_occ seen es
      else e # first_occ (insert (edge_key e) seen) es)"

subsection \<open>\<^verbatim>\<open>unwrap_pipe_segment\<close>: the seam (lines 248 to 277)\<close>

text \<open>
  A vertex is its coordinate triple \<open>(x, y, z)\<close>, an edge of the mesh the pair of its two
  vertices. The running minimum starts at \<^verbatim>\<open>float("inf")\<close>, which is \<open>None\<close> here: every
  radius is below it, and no radius is within a finite tolerance of it.
\<close>

type_synonym vec3 = "real \<times> real \<times> real"

record BMesh =
  verts :: "vec3 list"
  edges :: "(vec3 \<times> vec3) list"

definition co_x :: "vec3 \<Rightarrow> real" where "co_x v = fst v"
definition co_y :: "vec3 \<Rightarrow> real" where "co_y v = fst (snd v)"
definition co_z :: "vec3 \<Rightarrow> real" where "co_z v = snd (snd v)"

definition planar_radius :: "vec3 \<Rightarrow> real" where
  "planar_radius v = sqrt ((co_x v)\<^sup>2 + (co_y v)\<^sup>2)"

definition find_min_radius :: "vec3 list \<Rightarrow> real option" where
  "find_min_radius vs =
     fold (\<lambda>v min_radius.
             (let radius = planar_radius v
              in case min_radius of
                   None \<Rightarrow> Some radius
                 | Some m \<Rightarrow> if radius < m then Some radius else Some m))
          vs None"

definition z_tolerance :: real where "z_tolerance = 0.5"
definition radius_tolerance :: real where "radius_tolerance = 1.0"

definition is_seam :: "real option \<Rightarrow> vec3 \<times> vec3 \<Rightarrow> bool" where
  "is_seam min_radius edge =
     (case edge of (v1, v2) \<Rightarrow>
        if \<bar>co_z v1\<bar> < z_tolerance \<and> \<bar>co_z v2\<bar> < z_tolerance
        then (let r1 = planar_radius v1; r2 = planar_radius v2
              in case min_radius of
                   None \<Rightarrow> False
                 | Some m \<Rightarrow> \<bar>r1 - m\<bar> < radius_tolerance \<and> \<bar>r2 - m\<bar> < radius_tolerance)
        else False)"

text \<open>
  The seam flags after the function, one per edge in the order of \<open>bm.edges\<close>: all flags
  are cleared first, so the flag of an edge is set exactly when the test of the second
  loop succeeds for it.
\<close>

definition mark_seams :: "BMesh \<Rightarrow> bool list" where
  "mark_seams bm = (let min_radius = find_min_radius (verts bm)
                    in map (is_seam min_radius) (edges bm))"

subsection \<open>\<^verbatim>\<open>generate_pdf\<close>: file name and layout mode\<close>

text \<open>
  Decimal output. \<open>str_int\<close> is \<^verbatim>\<open>str\<close> on an integer, \<open>format_fixed d\<close> is the format
  \<^verbatim>\<open>{x:.df}\<close>: the value rounded to \<open>d\<close> decimal places with ties to even, a minus
  sign first when the value is negative. Over the reals there is no negative zero, and a
  decimal such as 0.35 is itself a tie, which the double nearest to it is not; the
  examples below use binary fractions that are no ties.
\<close>

definition digit_char :: "nat \<Rightarrow> char" where
  "digit_char n = ''0123456789'' ! n"

fun str_nat :: "nat \<Rightarrow> string" where
  "str_nat n = (if n < 10 then [digit_char n]
                else str_nat (n div 10) @ [digit_char (n mod 10)])"

declare str_nat.simps [simp del]

definition str_int :: "int \<Rightarrow> string" where
  "str_int i = (if i < 0 then CHR ''-'' # str_nat (nat (- i)) else str_nat (nat i))"

fun fixed_digits :: "nat \<Rightarrow> nat \<Rightarrow> string" where
  "fixed_digits 0 n = []"
| "fixed_digits (Suc d) n = fixed_digits d (n div 10) @ [digit_char (n mod 10)]"

definition round_half_even :: "real \<Rightarrow> int" where
  "round_half_even x =
     (let f = \<lfloor>x\<rfloor>; d = x - of_int f
      in if d < 1 / 2 then f else if d > 1 / 2 then f + 1
         else if even f then f else f + 1)"

definition format_fixed :: "nat \<Rightarrow> real \<Rightarrow> string" where
  "format_fixed d x =
     (let m = nat (round_half_even (\<bar>x\<bar> * 10 ^ d))
      in (if x < 0 then ''-'' else [])
         @ str_nat (m div 10 ^ d)
         @ (if d = 0 then [] else CHR ''.'' # fixed_digits d (m mod 10 ^ d)))"

text \<open>The file name (lines 505 to 515).\<close>

definition filename :: "PipeSpec \<Rightarrow> string" where
  "filename props =
     (let od = pipe_od props;
          clr = bend_radius_multiplier props;
          segments = num_segments props;
          mat_thickness = wrap_thickness props
      in ''exhaust_wrap_OD'' @ format_fixed 1 od @ ''_CLR'' @ format_fixed 1 clr
         @ ''_S'' @ str_int segments
         @ ''_O'' @ format_fixed 1 (overlap props) @ ''_MT'' @ format_fixed 2 mat_thickness
         @ ''.pdf'')"

text \<open>
  The four page generators that \<^verbatim>\<open>generate_pdf\<close> chooses from:
  \<^verbatim>\<open>_generate_single_page\<close>, \<^verbatim>\<open>_generate_single_multipage\<close>,
  \<^verbatim>\<open>_generate_split_same_page\<close> and \<^verbatim>\<open>_generate_split_separate_pages\<close>.
\<close>

datatype layout_mode =
  SINGLE_PAGE_STACKED | SINGLE_MULTIPAGE | SPLIT_SAME_PAGE | SPLIT_SEPARATE_PAGES

text \<open>
  The choice made by \<^verbatim>\<open>generate_pdf\<close> (lines 487 to 629), with the file name it writes
  to. The unit \<open>mm\<close> (points per millimetre) and the page size \<open>(page_w, page_h)\<close>, which
  the source takes from reportlab, are parameters of the model. The second component of
  the result names the generator that is called; the two split generators are called
  with \<open>split_overlap\<close>.
\<close>

definition split_overlap :: real where "split_overlap = 20"

definition generate_pdf :: "real \<Rightarrow> real \<times> real \<Rightarrow> PipeSpec \<Rightarrow> UVData \<Rightarrow> error + (string \<times> layout_mode)" where
  "generate_pdf mm page_size props uv_data =
     (case page_size of (page_w, page_h) \<Rightarrow>
        (let wrap_w = wrap_width uv_data;
             wrap_h = wrap_arc_length uv_data;
             margin = 6 * mm;
             title_space = 30 * mm;
             scale_space = 20 * mm;
             available_width = page_w - 2 * margin;
             available_height = page_h - title_space - scale_space - 2 * margin
         in bind_err (py_div available_width mm) (\<lambda>available_width_mm.
              (let needs_width_split = wrap_w > available_width_mm
               in if needs_width_split
                  then (let half_width = wrap_w / 2 + split_overlap;
                            template_spacing = 15 * mm;
                            total_height_needed = 2 * wrap_h * mm + template_spacing
                        in if total_height_needed \<le> available_height
                           then Inr (filename props, SPLIT_SAME_PAGE)
                           else Inr (filename props, SPLIT_SEPARATE_PAGES))
                  else (let template_spacing = 15 * mm;
                            total_height_needed = 2 * wrap_h * mm + template_spacing
                        in if total_height_needed \<le> available_height
                           then Inr (filename props, SINGLE_PAGE_STACKED)
                           else Inr (filename props, SINGLE_MULTIPAGE))))))"

text \<open>
  The layout planner in the words of the specification, on sizes in millimetres.
\<close>

definition spec_layout_mode :: "real \<Rightarrow> real \<Rightarrow> real \<Rightarrow> real \<Rightarrow> real \<Rightarrow> real \<Rightarrow> layout_mode" where
  "spec_layout_mode wrap_width_mm wrap_height_mm printable_width printable_height spacing
       split_overlap_mm =
     (let needs_width_split = wrap_width_mm > printable_width;
          stack_height = 2 * wrap_height_mm + spacing
      in if \<not> needs_width_split
         then (if stack_height \<le> printable_height then SINGLE_PAGE_STACKED else SINGLE_MULTIPAGE)
         else (if stack_height \<le> printable_height then SPLIT_SAME_PAGE else SPLIT_SEPARATE_PAGES))"

text \<open>
  The values of reportlab's \<^verbatim>\<open>mm\<close> and \<^verbatim>\<open>landscape(A4)\<close>, for examples and for the
  remark on A4 pages.
\<close>

definition reportlab_mm :: real where
  "reportlab_mm = 72 / 2.54 * 0.1"

definition landscape_A4 :: "real \<times> real" where
  "landscape_A4 = (297 * reportlab_mm, 210 * reportlab_mm)"

subsection \<open>The two halves of a split template\<close>

text \<open>
  \<^verbatim>\<open>_generate_split_same_page\<close> (lines 843 to 896): for each of the two labels, the
  arguments \<open>(label, x_start, x_end, half_width)\<close> of the call of \<^verbatim>\<open>_draw_split_half\<close>.
\<close>

definition generate_split_same_page :: "real \<Rightarrow> real \<Rightarrow> (string \<times> real \<times> real \<times> real) list" where
  "generate_split_same_page wrap_w split_ovl =
     (let center_w = wrap_w / 2;
          half_width = center_w + split_ovl
      in map (\<lambda>label.
                (let is_left = (label = ''LEFT HALF'');
                     x_start = (if is_left then 0 else center_w - split_ovl);
                     x_end = (if is_left then center_w + split_ovl else wrap_w)
                 in (label, x_start, x_end, half_width)))
             [''LEFT HALF'', ''RIGHT HALF''])"

text \<open>
  \<^verbatim>\<open>_generate_split_separate_pages\<close> (lines 993 to 1053): the arguments
  \<open>(page_label, x_start, x_end, section_width)\<close> of the two calls of
  \<^verbatim>\<open>_draw_split_page\<close>, where \<open>section_width = x_end - x_start\<close> is what that function
  computes first (line 1463).
\<close>

definition generate_split_separate_pages :: "real \<Rightarrow> real \<Rightarrow> (string \<times> real \<times> real \<times> real) list" where
  "generate_split_separate_pages wrap_w split_ovl =
     (let center_w = wrap_w / 2;
          left_width = center_w + split_ovl;
          right_width = center_w + split_ovl
      in map (\<lambda>(page_label, x_start, x_end). (page_label, x_start, x_end, x_end - x_start))
             [(''LEFT HALF (1 of 2)'', 0, left_width),
              (''RIGHT HALF (2 of 2)'', center_w - split_ovl, wrap_w)])"

text \<open>The x-range of a section.\<close>

definition x_range :: "string \<times> real \<times> real \<times> real \<Rightarrow> real set" where
  "x_range sec = (case sec of (label, x_start, x_end, w) \<Rightarrow> {x_start..x_end})"

subsection \<open>Outline drawing\<close>

text \<open>
  Of the page drawing routines only the outline loops are modelled: each routine returns
  the line segments \<open>(x1_pt, y1_pt, x2_pt, y2_pt)\<close> that its loops pass to \<^verbatim>\<open>c.line\<close>,
  those of the blue (base pipe) outline and those of the red (wrap) outline, in drawing
  order. Titles, legend, scale bar, centerline and overlap markers are left out.
\<close>

type_synonym line = "real \<times> real \<times> real \<times> real"

text \<open>
  The conditional expression \<^verbatim>\<open>(x - lo) / (hi - lo) if (hi - lo) > 0 else 0\<close>: the
  division is evaluated only when the test succeeds.
\<close>

definition normalize :: "real \<Rightarrow> real \<Rightarrow> real \<Rightarrow> error + real" where
  "normalize x lo hi = (if hi - lo > 0 then py_div (x - lo) (hi - lo) else Inr 0)"

text \<open>The four normalisations at the head of every loop body.\<close>

definition normalize_edge :: "real \<Rightarrow> real \<Rightarrow> real \<Rightarrow> real \<Rightarrow> edge \<Rightarrow> error + (real \<times> real \<times> real \<times> real)" where
  "normalize_edge min_u max_u min_v max_v edge =
     (case edge of ((u1, v1_coord), (u2, v2_coord)) \<Rightarrow>
        bind_err (normalize u1 min_u max_u) (\<lambda>u1_norm.
        bind_err (normalize v1_coord min_v max_v) (\<lambda>v1_norm.
        bind_err (normalize u2 min_u max_u) (\<lambda>u2_norm.
        bind_err (normalize v2_coord min_v max_v) (\<lambda>v2_norm.
          Inr (u1_norm, v1_norm, u2_norm, v2_norm))))))"

text \<open>
  The loop bodies of the pages that show the whole template (lines 719 to 743 and 748 to
  772, again at 1343 to 1363 and 1368 to 1388).
\<close>

definition base_edge_line :: "real \<Rightarrow> real \<Rightarrow> real \<Rightarrow> real \<Rightarrow> real \<Rightarrow> real \<Rightarrow> real \<Rightarrow> real \<Rightarrow> real \<Rightarrow> real \<Rightarrow> real \<Rightarrow> edge \<Rightarrow> error + line list" where
  "base_edge_line mm min_u max_u min_v max_v base_w base_h template_x template_y
       base_offset_x base_offset_y edge =
     bind_err (normalize_edge min_u max_u min_v max_v edge) (\<lambda>(u1_norm, v1_norm, u2_norm, v2_norm).
       (let x1_mm = v1_norm * base_w;
            y1_mm = u1_norm * base_h;
            x2_mm = v2_norm * base_w;
            y2_mm = u2_norm * base_h;
            x1_pt = template_x + (base_offset_x + x1_mm) * mm;
            y1_pt = template_y + (base_offset_y + y1_mm) * mm;
            x2_pt = template_x + (base_offset_x + x2_mm) * mm;
            y2_pt = template_y + (base_offset_y + y2_mm) * mm
        in Inr [(x1_pt, y1_pt, x2_pt, y2_pt)]))"

definition wrap_edge_line :: "real \<Rightarrow> real \<Rightarrow> real \<Rightarrow> real \<Rightarrow> real \<Rightarrow> real \<Rightarrow> real \<Rightarrow> real \<Rightarrow> real \<Rightarrow> edge \<Rightarrow> error + line list" where
  "wrap_edge_line mm min_u max_u min_v max_v wrap_w wrap_h template_x template_y edge =
     bind_err (normalize_edge min_u max_u min_v max_v edge) (\<lambda>(u1_norm, v1_norm, u2_norm, v2_norm).
       (let x1_mm = v1_norm * wrap_w;
            y1_mm = u1_norm * wrap_h;
            x2_mm = v2_norm * wrap_w;
            y2_mm = u2_norm * wrap_h;
            x1_pt = template_x + x1_mm * mm;
            y1_pt = template_y + y1_mm * mm;
            x2_pt = template_x + x2_mm * mm;
            y2_pt = template_y + y2_mm * mm
        in Inr [(x1_pt, y1_pt, x2_pt, y2_pt)]))"

text \<open>
  The test of the clipped loops (lines 1117 to 1122, and the same at 1149, 1532 and 1564),
  with the chained comparisons written out.
\<close>

definition clip_to_section :: "real \<Rightarrow> real \<Rightarrow> real \<Rightarrow> real \<Rightarrow> bool" where
  "clip_to_section x_start x_end x1_mm x2_mm =
     ((x_start \<le> x1_mm \<and> x1_mm \<le> x_end)
      \<or> (x_start \<le> x2_mm \<and> x2_mm \<le> x_end)
      \<or> (x1_mm < x_start \<and> x2_mm > x_end)
      \<or> (x2_mm < x_start \<and> x1_mm > x_end))"

text \<open>
  The loop bodies of the split pages (lines 1101 to 1127 and 1133 to 1159, again at 1516
  to 1542 and 1548 to 1574).
\<close>

definition base_edge_line_clipped :: "real \<Rightarrow> real \<Rightarrow> real \<Rightarrow> real \<Rightarrow> real \<Rightarrow> real \<Rightarrow> real \<Rightarrow> real \<Rightarrow> real \<Rightarrow> real \<Rightarrow> real \<Rightarrow> real \<Rightarrow> real \<Rightarrow> edge \<Rightarrow> error + line list" where
  "base_edge_line_clipped mm min_u max_u min_v max_v base_w base_h x_start x_end
       template_x template_y base_offset_x base_offset_y edge =
     bind_err (normalize_edge min_u max_u min_v max_v edge) (\<lambda>(u1_norm, v1_norm, u2_norm, v2_norm).
       (let x1_mm = v1_norm * base_w + base_offset_x;
            y1_mm = u1_norm * base_h + base_offset_y;
            x2_mm = v2_norm * base_w + base_offset_x;
            y2_mm = u2_norm * base_h + base_offset_y
        in if clip_to_section x_start x_end x1_mm x2_mm
           then (let x1_pt = template_x + (x1_mm - x_start) * mm;
                     y1_pt = template_y + y1_mm * mm;
                     x2_pt = template_x + (x2_mm - x_start) * mm;
                     y2_pt = template_y + y2_mm * mm
                 in Inr [(x1_pt, y1_pt, x2_pt, y2_pt)])
           else Inr []))"

definition wrap_edge_line_clipped :: "real \<Rightarrow> real \<Rightarrow> real \<Rightarrow> real \<Rightarrow> real \<Rightarrow> real \<Rightarrow> real \<Rightarrow> real \<Rightarrow> real \<Rightarrow> real \<Rightarrow> real \<Rightarrow> edge \<Rightarrow> error + line list" where
  "wrap_edge_line_clipped mm min_u max_u min_v max_v wrap_w wrap_h x_start x_end
       template_x template_y edge =
     bind_err (normalize_edge min_u max_u min_v max_v edge) (\<lambda>(u1_norm, v1_norm, u2_norm, v2_norm).
       (let x1_mm = v1_norm * wrap_w;
            y1_mm = u1_norm * wrap_h;
            x2_mm = v2_norm * wrap_w;
            y2_mm = u2_norm * wrap_h
        in if clip_to_section x_start x_end x1_mm x2_mm
           then (let x1_pt = template_x + (x1_mm - x_start) * mm;
                     y1_pt = template_y + y1_mm * mm;
                     x2_pt = template_x + (x2_mm - x_start) * mm;
                     y2_pt = template_y + y2_mm * mm
                 in Inr [(x1_pt, y1_pt, x2_pt, y2_pt)])
           else Inr []))"

text \<open>A \<^verbatim>\<open>for\<close> loop whose body may raise, and a loop over the boundary edges.\<close>

fun for_each :: "('a \<Rightarrow> error + 'b) \<Rightarrow> 'a list \<Rightarrow> error + 'b list" where
  "for_each body [] = Inr []"
| "for_each body (x # xs) =
     bind_err (body x) (\<lambda>y. bind_err (for_each body xs) (\<lambda>ys. Inr (y # ys)))"

definition draw_loop :: "(edge \<Rightarrow> error + line list) \<Rightarrow> edge list \<Rightarrow> error + line list" where
  "draw_loop body boundary_edges =
     bind_err (for_each body boundary_edges) (\<lambda>drawn. Inr (concat drawn))"

text \<open>
  \<^verbatim>\<open>_generate_single_page\<close>: for each of the two template positions, the blue and the
  red outline.
\<close>

definition generate_single_page :: "real \<Rightarrow> edge list \<Rightarrow> real \<Rightarrow> real \<Rightarrow> real \<Rightarrow> real \<Rightarrow> real \<Rightarrow> real \<Rightarrow> real \<Rightarrow> real \<Rightarrow> real \<Rightarrow> real \<Rightarrow> error + (line list \<times> line list) list" where
  "generate_single_page mm boundary_edges min_u max_u min_v max_v base_w base_h wrap_w wrap_h
       page_w margin =
     (let template_positions =
            [(margin + 40 * mm, ''TEMPLATE 1''),
             (margin + 40 * mm + wrap_h * mm + 15 * mm, ''TEMPLATE 2'')]
      in for_each (\<lambda>(template_y, label).
           (let template_x = (page_w - wrap_w * mm) / 2;
                base_offset_x = (wrap_w - base_w) / 2;
                base_offset_y = (wrap_h - base_h) / 2
            in bind_err (draw_loop (base_edge_line mm min_u max_u min_v max_v base_w base_h
                                      template_x template_y base_offset_x base_offset_y)
                                   boundary_edges) (\<lambda>blue_lines.
               bind_err (draw_loop (wrap_edge_line mm min_u max_u min_v max_v wrap_w wrap_h
                                      template_x template_y)
                                   boundary_edges) (\<lambda>red_lines.
                 Inr (blue_lines, red_lines)))))
           template_positions)"

text \<open>\<^verbatim>\<open>_draw_single_template_page\<close>, called twice by \<^verbatim>\<open>_generate_single_multipage\<close>.\<close>

definition draw_single_template_page :: "real \<Rightarrow> edge list \<Rightarrow> real \<Rightarrow> real \<Rightarrow> real \<Rightarrow> real \<Rightarrow> real \<Rightarrow> real \<Rightarrow> real \<Rightarrow> real \<Rightarrow> real \<Rightarrow> real \<Rightarrow> error + (line list \<times> line list)" where
  "draw_single_template_page mm boundary_edges min_u max_u min_v max_v base_w base_h wrap_w wrap_h
       page_w page_h =
     (let template_y = (page_h - wrap_h * mm) / 2 - 10 * mm;
          template_x = (page_w - wrap_w * mm) / 2;
          base_offset_x = (wrap_w - base_w) / 2;
          base_offset_y = (wrap_h - base_h) / 2
      in bind_err (draw_loop (base_edge_line mm min_u max_u min_v max_v base_w base_h
                                template_x template_y base_offset_x base_offset_y)
                             boundary_edges) (\<lambda>blue_lines.
         bind_err (draw_loop (wrap_edge_line mm min_u max_u min_v max_v wrap_w wrap_h
                                template_x template_y)
                             boundary_edges) (\<lambda>red_lines.
           Inr (blue_lines, red_lines))))"

text \<open>\<^verbatim>\<open>_draw_split_half\<close>, called for each half by \<^verbatim>\<open>_generate_split_same_page\<close>.\<close>

definition draw_split_half :: "real \<Rightarrow> edge list \<Rightarrow> real \<Rightarrow> real \<Rightarrow> real \<Rightarrow> real \<Rightarrow> real \<Rightarrow> real \<Rightarrow> real \<Rightarrow> real \<Rightarrow> real \<Rightarrow> real \<Rightarrow> real \<Rightarrow> real \<Rightarrow> real \<Rightarrow> error + (line list \<times> line list)" where
  "draw_split_half mm boundary_edges min_u max_u min_v max_v base_w base_h wrap_w wrap_h
       x_start x_end template_y page_w half_width =
     (let template_x = (page_w - half_width * mm) / 2;
          base_offset_x = (wrap_w - base_w) / 2;
          base_offset_y = (wrap_h - base_h) / 2
      in bind_err (draw_loop (base_edge_line_clipped mm min_u max_u min_v max_v base_w base_h
                                x_start x_end template_x template_y base_offset_x base_offset_y)
                             boundary_edges) (\<lambda>blue_lines.
         bind_err (draw_loop (wrap_edge_line_clipped mm min_u max_u min_v max_v wrap_w wrap_h
                                x_start x_end template_x template_y)
                             boundary_edges) (\<lambda>red_lines.
           Inr (blue_lines, red_lines))))"

text \<open>\<^verbatim>\<open>_draw_split_page\<close>, called for each half by \<^verbatim>\<open>_generate_split_separate_pages\<close>.\<close>

definition draw_split_page :: "real \<Rightarrow> edge list \<Rightarrow> real \<Rightarrow> real \<Rightarrow> real \<Rightarrow> real \<Rightarrow> real \<Rightarrow> real \<Rightarrow> real \<Rightarrow> real \<Rightarrow> real \<Rightarrow> real \<Rightarrow> real \<Rightarrow> real \<Rightarrow> error + (line list \<times> line list)" where
  "draw_split_page mm boundary_edges min_u max_u min_v max_v base_w base_h wrap_w wrap_h
       x_start x_end page_w page_h =
     (let section_width = x_end - x_start;
          template_y = page_h / 2 - (wrap_h * mm) / 2;
          template_x = (page_w - section_width * mm) / 2;
          base_offset_x = (wrap_w - base_w) / 2;
          base_offset_y = (wrap_h - base_h) / 2
      in bind_err (draw_loop (base_edge_line_clipped mm min_u max_u min_v max_v base_w base_h
                                x_start x_end template_x template_y base_offset_x base_offset_y)
                             boundary_edges) (\<lambda>blue_lines.
         bind_err (draw_loop (wrap_edge_line_clipped mm min_u max_u min_v max_v wrap_w wrap_h
                                x_start x_end template_x template_y)
                             boundary_edges) (\<lambda>red_lines.
           Inr (blue_lines, red_lines))))"

subsection \<open>Auxiliary notions\<close>

text \<open>The loop body of the edge count folded over a list of directed edges.\<close>

definition count_all :: "edge list \<Rightarrow> edge_dicts \<Rightarrow> edge_dicts" where
  "count_all es st = fold (\<lambda>e. count_edge (fst e) (snd e)) es st"

text \<open>
  The value of the normalisation, and the endpoints in millimetres of an edge in the base
  outline as the split pages place it (centred in the wrap outline) and in the wrap
  outline: \<open>(x1_mm, y1_mm, x2_mm, y2_mm)\<close>.
\<close>

definition norm_coord :: "real \<Rightarrow> real \<Rightarrow> real \<Rightarrow> real" where
  "norm_coord x lo hi = (if hi - lo > 0 then (x - lo) / (hi - lo) else 0)"

definition base_outline_mm :: "real \<Rightarrow> real \<Rightarrow> real \<Rightarrow> real \<Rightarrow> real \<Rightarrow> real \<Rightarrow> real \<Rightarrow> real \<Rightarrow> edge \<Rightarrow> real \<times> real \<times> real \<times> real" where
  "base_outline_mm min_u max_u min_v max_v base_w base_h wrap_w wrap_h edge =
     (case edge of ((u1, v1_coord), (u2, v2_coord)) \<Rightarrow>
        (norm_coord v1_coord min_v max_v * base_w + (wrap_w - base_w) / 2,
         norm_coord u1 min_u max_u * base_h + (wrap_h - base_h) / 2,
         norm_coord v2_coord min_v max_v * base_w + (wrap_w - base_w) / 2,
         norm_coord u2 min_u max_u * base_h + (wrap_h - base_h) / 2))"

definition wrap_outline_mm :: "real \<Rightarrow> real \<Rightarrow> real \<Rightarrow> real \<Rightarrow> real \<Rightarrow> real \<Rightarrow> edge \<Rightarrow> real \<times> real \<times> real \<times> real" where
  "wrap_outline_mm min_u max_u min_v max_v wrap_w wrap_h edge =
     (case edge of ((u1, v1_coord), (u2, v2_coord)) \<Rightarrow>
        (norm_coord v1_coord min_v max_v * wrap_w,
         norm_coord u1 min_u max_u * wrap_h,
         norm_coord v2_coord min_v max_v * wrap_w,
         norm_coord u2 min_u max_u * wrap_h))"

text \<open>
  The clipping rule in the words of the specification: an endpoint has its x in the
  window, or the endpoints lie outside the window on opposite sides of it.
\<close>

definition drawn_in_section :: "real \<Rightarrow> real \<Rightarrow> real \<times> real \<times> real \<times> real \<Rightarrow> bool" where
  "drawn_in_section x_start x_end p =
     (case p of (x1, y1, x2, y2) \<Rightarrow>
        x1 \<in> {x_start..x_end} \<or> x2 \<in> {x_start..x_end}
        \<or> (x1 < x_start \<and> x_end < x2) \<or> (x2 < x_start \<and> x_end < x1))"

text \<open>The segment in page coordinates (points) of an edge placed in a section.\<close>

definition section_line :: "real \<Rightarrow> real \<Rightarrow> real \<Rightarrow> real \<Rightarrow> real \<times> real \<times> real \<times> real \<Rightarrow> line" where
  "section_line mm x_start template_x template_y p =
     (case p of (x1_mm, y1_mm, x2_mm, y2_mm) \<Rightarrow>
        (template_x + (x1_mm - x_start) * mm, template_y + y1_mm * mm,
         template_x + (x2_mm - x_start) * mm, template_y + y2_mm * mm))"

text \<open>
  What \<open>format_fixed d\<close> prints of a number: its sign and its magnitude in units of
  \<open>10\<^sup>-\<^sup>d\<close>, rounded. The decimal digits.
\<close>

definition printed :: "nat \<Rightarrow> real \<Rightarrow> bool \<times> int" where
  "printed d x = (x < 0, round_half_even (\<bar>x\<bar> * 10 ^ d))"

definition is_digit :: "char \<Rightarrow> bool" where
  "is_digit c = (c \<in> set ''0123456789'')"

text \<open>
  The invariant of a pipe specification as the specification states it, with the bounds
  of its input section: diameter, multiplier and angle positive, the angle at most 360
  degrees, at least one segment, wrap thickness and overlap not negative.
\<close>

definition valid_PipeSpec :: "PipeSpec \<Rightarrow> bool" where
  "valid_PipeSpec props =
     (0 < pipe_od props \<and> 0 < bend_radius_multiplier props
      \<and> 0 < bend_angle props \<and> bend_angle props \<le> 360
      \<and> 1 \<le> num_segments props
      \<and> 0 \<le> wrap_thickness props \<and> 0 \<le> overlap props)"

section \<open>Boundary extraction and dimensions\<close>

subsection \<open>Error sequencing, minimum and maximum\<close>

lemma bind_err_Inr [simp]: "bind_err (Inr x) f = f x"
  by (simp add: bind_err_def)

lemma bind_err_Inl [simp]: "bind_err (Inl e) f = Inl e"
  by (simp add: bind_err_def)

lemma keep_less_min: "(\<lambda>y m. if y < m then y else m) = (min :: real \<Rightarrow> real \<Rightarrow> real)"
  by (auto simp: fun_eq_iff min_def)

lemma keep_greater_max: "(\<lambda>y m. if y > m then y else m) = (max :: real \<Rightarrow> real \<Rightarrow> real)"
  by (auto simp: fun_eq_iff max_def)

lemma py_min_Min: "xs \<noteq> [] \<Longrightarrow> py_min xs = Inr (Min (set xs))"
  by (cases xs) (simp_all add: py_min_def keep_less_min flip: Min.set_eq_fold)

lemma py_max_Max: "xs \<noteq> [] \<Longrightarrow> py_max xs = Inr (Max (set xs))"
  by (cases xs) (simp_all add: py_max_def keep_greater_max flip: Max.set_eq_fold)

subsection \<open>The edge dictionaries after the counting loops\<close>

lemma count_polygon_edges: "count_polygon p st = count_all (polygon_edges p) st"
  by (simp add: count_polygon_def count_all_def polygon_edges_def fold_map comp_def Let_def)

lemma count_all_append: "count_all (es @ fs) st = count_all fs (count_all es st)"
  by (simp add: count_all_def)

lemma fold_count_polygon: "fold count_polygon ps st = count_all (all_edges ps) st"
  by (induction ps arbitrary: st)
     (simp_all add: all_edges_def count_polygon_edges count_all_append, simp add: count_all_def)

lemma count_polygons_all_edges: "count_polygons ps = count_all (all_edges ps) ([], [])"
  by (simp add: count_polygons_def fold_count_polygon)

lemma first_occ_snoc:
  "first_occ seen (es @ [e]) =
     first_occ seen es @ (if edge_key e \<in> seen \<union> edge_key ` set es then [] else [e])"
  by (induction es arbitrary: seen) auto

lemma keys_first_occ: "edge_key ` set (first_occ seen es) = edge_key ` set es - seen"
  by (induction es arbitrary: seen) auto

lemma distinct_first_occ: "distinct (map edge_key (first_occ seen es))"
proof (induction es arbitrary: seen)
  case Nil
  show ?case by simp
next
  case (Cons e es)
  have "edge_key e \<notin> edge_key ` set (first_occ (insert (edge_key e) seen) es)"
    by (simp add: keys_first_occ)
  with Cons show ?case by simp
qed

lemma occurrences_snoc:
  "occurrences (es @ [e]) k = occurrences es k + (if edge_key e = k then 1 else 0)"
  by (simp add: occurrences_def)

lemma occurrences_zero: "occurrences es k = 0 \<longleftrightarrow> k \<notin> edge_key ` set es"
  by (auto simp: occurrences_def filter_empty_conv)

lemma update_absent: "k \<notin> fst ` set al \<Longrightarrow> AList.update k v al = al @ [(k, v)]"
  by (induction al) auto

lemma update_present:
  "distinct (map g xs) \<Longrightarrow> k \<in> g ` set xs \<Longrightarrow>
   AList.update k v (map (\<lambda>x. (g x, f x)) xs) = map (\<lambda>x. (g x, if g x = k then v else f x)) xs"
proof (induction xs)
  case Nil
  then show ?case by simp
next
  case (Cons a xs)
  show ?case
  proof (cases "g a = k")
    case True
    have "g a \<notin> g ` set xs" using Cons.prems(1) by simp
    with True have "\<forall>x\<in>set xs. g x \<noteq> k" by blast
    then have "map (\<lambda>x. (g x, if g x = k then v else f x)) xs = map (\<lambda>x. (g x, f x)) xs"
      by simp
    with True show ?thesis by simp
  next
    case False
    then have "k \<in> g ` set xs" using Cons.prems(2) by auto
    with Cons False show ?thesis by simp
  qed
qed

lemma map_of_keyed:
  "distinct (map g xs) \<Longrightarrow> x \<in> set xs \<Longrightarrow> map_of (map (\<lambda>x. (g x, f x)) xs) (g x) = Some (f x)"
  by (induction xs) (auto simp: rev_image_eqI)

lemma map_of_keyed_None:
  "k \<notin> g ` set xs \<Longrightarrow> map_of (map (\<lambda>x. (g x, f x)) xs) k = None"
  by (induction xs) auto


lemma count_all_snoc:
  "count_all (es @ [e]) st = count_edge (fst e) (snd e) (count_all es st)"
  by (simp add: count_all_def)

lemma count_edge_seen:
  assumes "map_of edge_count (edge_key e) = Some n" and "map_of edge_order (edge_key e) = Some d"
  shows "count_edge (fst e) (snd e) (edge_count, edge_order) =
           (AList.update (edge_key e) (n + 1) edge_count, edge_order)"
  using assms by (simp add: count_edge_def Let_def dict_get_def edge_key_def)

lemma count_edge_fresh:
  assumes "map_of edge_count (edge_key e) = None" and "map_of edge_order (edge_key e) = None"
  shows "count_edge (fst e) (snd e) (edge_count, edge_order) =
           (AList.update (edge_key e) 1 edge_count, AList.update (edge_key e) e edge_order)"
  using assms by (simp add: count_edge_def Let_def dict_get_def edge_key_def)

lemma count_all_char:
  "count_all es ([], []) =
     (map (\<lambda>x. (edge_key x, occurrences es (edge_key x))) (first_occ {} es),
      map (\<lambda>x. (edge_key x, x)) (first_occ {} es))"
proof (induction es rule: rev_induct)
  case Nil
  show ?case by (simp add: count_all_def)
next
  case (snoc e es)
  let ?F = "first_occ {} es"
  let ?k = "edge_key e"
  let ?ec = "map (\<lambda>x. (edge_key x, occurrences es (edge_key x))) ?F"
  let ?eo = "map (\<lambda>x. (edge_key x, x)) ?F"
  have dist: "distinct (map edge_key ?F)" by (rule distinct_first_occ)
  have keys: "edge_key ` set ?F = edge_key ` set es" by (simp add: keys_first_occ)
  have step: "count_all (es @ [e]) ([], []) = count_edge (fst e) (snd e) (?ec, ?eo)"
    by (simp only: count_all_snoc snoc.IH)
  show ?case
  proof (cases "?k \<in> edge_key ` set es")
    case True
    then have kin: "?k \<in> edge_key ` set ?F" using keys by simp
    then obtain x where x: "x \<in> set ?F" "edge_key x = ?k" by (metis imageE)
    have g1: "map_of ?ec ?k = Some (occurrences es ?k)"
      using map_of_keyed [OF dist x(1), of "\<lambda>x. occurrences es (edge_key x)"] x(2) by simp
    have g2: "map_of ?eo ?k = Some x"
      using map_of_keyed [OF dist x(1), of "\<lambda>x. x"] x(2) by simp
    have F': "first_occ {} (es @ [e]) = ?F"
      using True by (simp add: first_occ_snoc)
    have "AList.update ?k (occurrences es ?k + 1) ?ec =
            map (\<lambda>x. (edge_key x, if edge_key x = ?k then occurrences es ?k + 1
                                      else occurrences es (edge_key x))) ?F"
      by (rule update_present [OF dist kin])
    also have "\<dots> = map (\<lambda>x. (edge_key x, occurrences (es @ [e]) (edge_key x))) ?F"
      by (rule map_cong) (auto simp: occurrences_snoc)
    finally have ec': "AList.update ?k (occurrences es ?k + 1) ?ec =
            map (\<lambda>x. (edge_key x, occurrences (es @ [e]) (edge_key x))) ?F" .
    show ?thesis
      by (simp only: step count_edge_seen [OF g1 g2] ec' F')
  next
    case False
    then have notin: "?k \<notin> edge_key ` set ?F" using keys by simp
    have n1: "map_of ?ec ?k = None" using notin by (rule map_of_keyed_None)
    have n2: "map_of ?eo ?k = None" using notin by (rule map_of_keyed_None)
    have a1: "?k \<notin> fst ` set ?ec" using notin by (simp add: image_image)
    have a2: "?k \<notin> fst ` set ?eo" using notin by (simp add: image_image)
    have F': "first_occ {} (es @ [e]) = ?F @ [e]"
      using False by (simp add: first_occ_snoc)
    have one: "occurrences (es @ [e]) ?k = 1"
      using False by (simp add: occurrences_snoc occurrences_zero)
    have "map (\<lambda>x. (edge_key x, occurrences (es @ [e]) (edge_key x))) ?F = ?ec"
      by (rule map_cong) (use notin in \<open>auto simp: occurrences_snoc\<close>)
    then have ec': "map (\<lambda>x. (edge_key x, occurrences (es @ [e]) (edge_key x))) (?F @ [e]) =
                    ?ec @ [(?k, 1)]"
      using one by simp
    have eo': "map (\<lambda>x. (edge_key x, x)) (?F @ [e]) = ?eo @ [(?k, e)]" by simp
    show ?thesis
      by (simp only: step count_edge_fresh [OF n1 n2] update_absent [OF a1] update_absent [OF a2]
            F' ec' eo')
  qed
qed

lemma collect_boundary_char:
  "\<forall>e \<in> set G. map_of edge_order (edge_key e) = Some e \<Longrightarrow>
   collect_boundary (map (\<lambda>e. (edge_key e, c e)) G) edge_order = Inr (filter (\<lambda>e. c e = 1) G)"
  by (induction G) simp_all

lemma occurrences_Cons:
  "occurrences (e # es) k = (if edge_key e = k then 1 else 0) + occurrences es k"
  by (simp add: occurrences_def)

lemma occurrences_pos: "x \<in> set es \<Longrightarrow> 0 < occurrences es (edge_key x)"
  using occurrences_zero [of es "edge_key x"] by auto

lemma filter_first_occ:
  "\<forall>e \<in> set es. Q e \<longrightarrow> edge_key e \<notin> seen \<and> occurrences es (edge_key e) = 1 \<Longrightarrow>
   filter Q (first_occ seen es) = filter Q es"
proof (induction es arbitrary: seen)
  case Nil
  show ?case by simp
next
  case (Cons e es)
  have tl: "\<forall>x \<in> set es. Q x \<longrightarrow> edge_key x \<notin> insert (edge_key e) seen \<and> occurrences es (edge_key x) = 1"
  proof (intro ballI impI)
    fix x assume x: "x \<in> set es" and q: "Q x"
    from Cons.prems x q have 1: "edge_key x \<notin> seen"
      and 2: "occurrences (e # es) (edge_key x) = 1" by auto
    have 3: "0 < occurrences es (edge_key x)" using x by (rule occurrences_pos)
    from 2 3 have "edge_key e \<noteq> edge_key x \<and> occurrences es (edge_key x) = 1"
      by (simp add: occurrences_Cons split: if_splits)
    with 1 show "edge_key x \<notin> insert (edge_key e) seen \<and> occurrences es (edge_key x) = 1"
      by auto
  qed
  then have tl': "\<forall>x \<in> set es. Q x \<longrightarrow> edge_key x \<notin> seen \<and> occurrences es (edge_key x) = 1"
    by simp
  show ?case
  proof (cases "edge_key e \<in> seen")
    case True
    then have "\<not> Q e" using Cons.prems by auto
    then show ?thesis using True Cons.IH [OF tl'] by simp
  next
    case False
    then show ?thesis using Cons.IH [OF tl] by simp
  qed
qed

lemma collect_boundary_counts:
  "collect_boundary (fst (count_polygons ps)) (snd (count_polygons ps)) =
     Inr (filter (\<lambda>e. occurrences (all_edges ps) (edge_key e) = 1) (all_edges ps))"
proof -
  let ?es = "all_edges ps"
  let ?F = "first_occ {} ?es"
  let ?c = "\<lambda>e. occurrences ?es (edge_key e)"
  have dist: "distinct (map edge_key ?F)" by (rule distinct_first_occ)
  have lookup: "\<forall>e \<in> set ?F. map_of (map (\<lambda>x. (edge_key x, x)) ?F) (edge_key e) = Some e"
    using map_of_keyed [OF dist, of _ "\<lambda>x. x"] by simp
  have "collect_boundary (fst (count_polygons ps)) (snd (count_polygons ps)) =
          collect_boundary (map (\<lambda>x. (edge_key x, ?c x)) ?F) (map (\<lambda>x. (edge_key x, x)) ?F)"
    by (simp add: count_polygons_all_edges count_all_char)
  also have "\<dots> = Inr (filter (\<lambda>e. ?c e = 1) ?F)"
    by (rule collect_boundary_char [OF lookup])
  also have "filter (\<lambda>e. ?c e = 1) ?F = filter (\<lambda>e. ?c e = 1) ?es"
    by (rule filter_first_occ) simp
  finally show ?thesis .
qed

lemma calc_dimensions_Inr:
  "num_segments props \<noteq> 0 \<Longrightarrow>
   calc_dimensions props =
     Inr (pi * pipe_od props,
          (pipe_od props * bend_radius_multiplier props)
             * radians (bend_angle props / of_int (num_segments props)),
          2 * pi * (pipe_od props / 2 + wrap_thickness props) + overlap props,
          (pipe_od props * bend_radius_multiplier props + wrap_thickness props)
             * radians (bend_angle props / of_int (num_segments props)))"
  by (simp add: calc_dimensions_def py_div_def Let_def)

lemma extract_uv_data_Inr:
  assumes "concat polygons \<noteq> []" and "num_segments props \<noteq> 0"
  shows "extract_uv_data (Some polygons) props =
     Inr (\<lparr>uv_polygons = polygons,
            uv_min_u = Min (fst ` set (concat polygons)),
            uv_max_u = Max (fst ` set (concat polygons)),
            uv_min_v = Min (snd ` set (concat polygons)),
            uv_max_v = Max (snd ` set (concat polygons)),
            pipe_circ_mm = pi * pipe_od props,
            pipe_arc_mm = (pipe_od props * bend_radius_multiplier props)
                            * radians (bend_angle props / of_int (num_segments props)),
            wrap_width = 2 * pi * (pipe_od props / 2 + wrap_thickness props) + overlap props,
            wrap_arc_length = (pipe_od props * bend_radius_multiplier props + wrap_thickness props)
                            * radians (bend_angle props / of_int (num_segments props)),
            uv_overlap = overlap props\<rparr>,
          \<lparr>bd_boundary_edges =
              filter (\<lambda>e. occurrences (all_edges polygons) (edge_key e) = 1) (all_edges polygons),
            bd_min_u = Min (fst ` set (concat polygons)),
            bd_max_u = Max (fst ` set (concat polygons)),
            bd_min_v = Min (snd ` set (concat polygons)),
            bd_max_v = Max (snd ` set (concat polygons))\<rparr>)"
proof -
  have ne: "map fst (concat polygons) \<noteq> []" "map snd (concat polygons) \<noteq> []"
    using assms(1) by simp_all
  have cb: "(case count_polygons polygons of (edge_count, edge_order) \<Rightarrow> f edge_count edge_order)
              = f (fst (count_polygons polygons)) (snd (count_polygons polygons))" for f :: "(edge \<times> nat) list \<Rightarrow> (edge \<times> edge) list \<Rightarrow> error + (UVData \<times> BoundaryData)"
    by (simp add: case_prod_beta)
  show ?thesis
    unfolding extract_uv_data_def
    by (simp add: Let_def py_min_Min [OF ne(1)] py_max_Max [OF ne(1)] py_min_Min [OF ne(2)]
          py_max_Max [OF ne(2)] case_prod_beta collect_boundary_counts
          calc_dimensions_Inr [OF assms(2)] del: set_concat)
qed

subsection \<open>The results of \<^verbatim>\<open>extract_uv_data\<close>\<close>

lemma find_only_occurrence:
  assumes "e \<in> set es" and "occurrences es (edge_key e) = 1"
  shows "find (\<lambda>d. edge_key d = edge_key e) es = Some e"
proof -
  let ?P = "\<lambda>d. edge_key d = edge_key e"
  from assms(2) obtain x where x: "filter ?P es = [x]"
    by (auto simp: occurrences_def length_Suc_conv)
  have "e \<in> set (filter ?P es)" using assms(1) by simp
  then have ex: "x = e" using x by simp
  have "\<exists>y. y \<in> set es \<and> ?P y" using assms(1) by blast
  then have "find ?P es \<noteq> None" by (simp only: find_None_iff not_not)
  then obtain d where d: "find ?P es = Some d" by blast
  then have "d \<in> set (filter ?P es)"
    by (auto simp: find_Some_iff)
  then have "d = x" using x by simp
  with d ex show ?thesis by simp
qed

text \<open>
  Claim C1. For every pipe specification, the dimension calculation returns exactly
  \<open>base_width = \<pi> \<times> pipe_od\<close>,
  \<open>base_height = (pipe_od \<times> bend_radius_multiplier) \<times> radians (bend_angle / num_segments)\<close>,
  \<open>wrap_width = 2\<pi> \<times> (pipe_od / 2 + wrap_thickness) + overlap\<close> and
  \<open>wrap_height = (pipe_od \<times> bend_radius_multiplier + wrap_thickness) \<times>
  radians (bend_angle / num_segments)\<close>, whatever the mesh: the dimension block returns
  these four terms of the specification alone, and so do the four entries of the result
  of \<^verbatim>\<open>extract_uv_data\<close>, which returns when the UV layer has a vertex. The segment
  count, which the specification bounds below by 1, is not zero.
\<close>

theorem dimensions_formulas:
  assumes "concat polygons \<noteq> []" and "num_segments props \<noteq> 0"
  shows "calc_dimensions props =
           Inr (pi * pipe_od props,
                (pipe_od props * bend_radius_multiplier props)
                  * radians (bend_angle props / of_int (num_segments props)),
                2 * pi * (pipe_od props / 2 + wrap_thickness props) + overlap props,
                (pipe_od props * bend_radius_multiplier props + wrap_thickness props)
                  * radians (bend_angle props / of_int (num_segments props)))
       \<and> (\<exists>uv_data boundary_data.
           extract_uv_data (Some polygons) props = Inr (uv_data, boundary_data)
         \<and> pipe_circ_mm uv_data = pi * pipe_od props
         \<and> pipe_arc_mm uv_data =
             (pipe_od props * bend_radius_multiplier props)
               * radians (bend_angle props / of_int (num_segments props))
         \<and> wrap_width uv_data =
             2 * pi * (pipe_od props / 2 + wrap_thickness props) + overlap props
         \<and> wrap_arc_length uv_data =
             (pipe_od props * bend_radius_multiplier props + wrap_thickness props)
               * radians (bend_angle props / of_int (num_segments props)))"
  using extract_uv_data_Inr [OF assms] calc_dimensions_Inr [OF assms(2)] by simp

theorem dimensions_formulas_witness:
  "concat ([[(0, 0), (1, 0), (0, 1)]] :: polygon list) \<noteq> []
   \<and> num_segments \<lparr>pipe_od = 76.2, bend_radius_multiplier = 1.5, bend_angle = 90,
         num_segments = 5, wrap_thickness = 6.15, overlap = 10\<rparr> \<noteq> 0
   \<and> calc_dimensions \<lparr>pipe_od = 76.2, bend_radius_multiplier = 1.5, bend_angle = 90,
         num_segments = 5, wrap_thickness = 6.15, overlap = 10\<rparr>
       = Inr (pi * 76.2, 114.3 * radians 18, 2 * pi * 44.25 + 10, (114.3 + 6.15) * radians 18)
   \<and> (\<exists>uv_data boundary_data.
         extract_uv_data (Some [[(0, 0), (1, 0), (0, 1)]])
           \<lparr>pipe_od = 76.2, bend_radius_multiplier = 1.5, bend_angle = 90,
            num_segments = 5, wrap_thickness = 6.15, overlap = 10\<rparr>
           = Inr (uv_data, boundary_data)
       \<and> pipe_circ_mm uv_data = pi * 76.2
       \<and> pipe_arc_mm uv_data = 114.3 * radians 18
       \<and> wrap_width uv_data = 2 * pi * 44.25 + 10
       \<and> wrap_arc_length uv_data = (114.3 + 6.15) * radians 18)"
  using dimensions_formulas [of "[[(0, 0), (1, 0), (0, 1)]]"
      "\<lparr>pipe_od = 76.2, bend_radius_multiplier = 1.5, bend_angle = 90,
        num_segments = 5, wrap_thickness = 6.15, overlap = 10\<rparr>"]
  by (simp add: radians_def)

text \<open>
  Claim C7. For every valid pipe specification with a positive wrap thickness (the overlap
  is not negative in a valid one), the wrap dimensions that \<^verbatim>\<open>extract_uv_data\<close> returns
  are strictly above the base dimensions: \<open>wrap_width > base_width\<close> and
  \<open>wrap_height > base_height\<close>.
\<close>

theorem wrap_dominates_base:
  assumes "valid_PipeSpec props" and "0 < wrap_thickness props" and "concat polygons \<noteq> []"
  shows "\<exists>uv_data boundary_data.
           extract_uv_data (Some polygons) props = Inr (uv_data, boundary_data)
         \<and> wrap_width uv_data > pipe_circ_mm uv_data
         \<and> wrap_arc_length uv_data > pipe_arc_mm uv_data"
proof -
  from assms(1) have n: "num_segments props \<noteq> 0" and n1: "1 \<le> num_segments props"
    and a: "0 < bend_angle props" and o: "0 \<le> overlap props"
    by (simp_all add: valid_PipeSpec_def)
  have "0 < (of_int (num_segments props) :: real)" using n1 by simp
  with a have "0 < bend_angle props / of_int (num_segments props)" by simp
  then have r: "0 < radians (bend_angle props / of_int (num_segments props))"
    unfolding radians_def by (rule mult_pos_pos) simp
  have w: "pi * pipe_od props < 2 * pi * (pipe_od props / 2 + wrap_thickness props) + overlap props"
  proof -
    have "0 < 2 * pi * wrap_thickness props" using assms(2) by simp
    then show ?thesis using o by (simp add: algebra_simps)
  qed
  have h: "(pipe_od props * bend_radius_multiplier props)
             * radians (bend_angle props / of_int (num_segments props))
         < (pipe_od props * bend_radius_multiplier props + wrap_thickness props)
             * radians (bend_angle props / of_int (num_segments props))"
    using r assms(2) by simp
  show ?thesis
    using extract_uv_data_Inr [OF assms(3) n] w h by simp
qed

theorem wrap_dominates_base_witness:
  "valid_PipeSpec \<lparr>pipe_od = 76.2, bend_radius_multiplier = 1.5, bend_angle = 90,
         num_segments = 5, wrap_thickness = 6.15, overlap = 10\<rparr>
   \<and> 0 < wrap_thickness \<lparr>pipe_od = 76.2, bend_radius_multiplier = 1.5, bend_angle = 90,
         num_segments = 5, wrap_thickness = 6.15, overlap = 10\<rparr>
   \<and> concat ([[(0, 0), (1, 0), (0, 1)]] :: polygon list) \<noteq> []
   \<and> (\<exists>uv_data boundary_data.
         extract_uv_data (Some [[(0, 0), (1, 0), (0, 1)]])
           \<lparr>pipe_od = 76.2, bend_radius_multiplier = 1.5, bend_angle = 90,
            num_segments = 5, wrap_thickness = 6.15, overlap = 10\<rparr>
           = Inr (uv_data, boundary_data)
       \<and> wrap_width uv_data > pipe_circ_mm uv_data
       \<and> wrap_arc_length uv_data > pipe_arc_mm uv_data)"
  using wrap_dominates_base [of
      "\<lparr>pipe_od = 76.2, bend_radius_multiplier = 1.5, bend_angle = 90,
        num_segments = 5, wrap_thickness = 6.15, overlap = 10\<rparr>"
      "[[(0, 0), (1, 0), (0, 1)]]"]
  by (simp add: valid_PipeSpec_def)

text \<open>
  Claim C3. For every collection of UV polygons with at least one vertex, the boundary
  extraction returns exactly the directed edges whose undirected key occurs once, in
  polygon iteration order; each of them is the first directed edge of its key in that
  order; and the bounds returned with them are the minimum and the maximum of both
  coordinates over all polygon vertices.
\<close>

theorem boundary_extraction_exact:
  assumes "concat polygons \<noteq> []" and "num_segments props \<noteq> 0"
  shows "\<exists>uv_data boundary_data.
           extract_uv_data (Some polygons) props = Inr (uv_data, boundary_data)
         \<and> bd_boundary_edges boundary_data =
             filter (\<lambda>e. occurrences (all_edges polygons) (edge_key e) = 1) (all_edges polygons)
         \<and> (\<forall>e \<in> set (bd_boundary_edges boundary_data).
               find (\<lambda>d. edge_key d = edge_key e) (all_edges polygons) = Some e)
         \<and> bd_min_u boundary_data = Min (fst ` set (concat polygons))
         \<and> bd_max_u boundary_data = Max (fst ` set (concat polygons))
         \<and> bd_min_v boundary_data = Min (snd ` set (concat polygons))
         \<and> bd_max_v boundary_data = Max (snd ` set (concat polygons))"
  using extract_uv_data_Inr [OF assms] by (simp add: find_only_occurrence del: set_concat)

theorem boundary_extraction_exact_witness:
  "concat ([[(0, 0), (1, 0), (1, 1)], [(0, 0), (1, 1), (0, 1)]] :: polygon list) \<noteq> []
   \<and> num_segments \<lparr>pipe_od = 76.2, bend_radius_multiplier = 1.5, bend_angle = 90,
         num_segments = 5, wrap_thickness = 6.15, overlap = 10\<rparr> \<noteq> 0
   \<and> (\<exists>uv_data boundary_data.
         extract_uv_data (Some [[(0, 0), (1, 0), (1, 1)], [(0, 0), (1, 1), (0, 1)]])
           \<lparr>pipe_od = 76.2, bend_radius_multiplier = 1.5, bend_angle = 90,
            num_segments = 5, wrap_thickness = 6.15, overlap = 10\<rparr>
           = Inr (uv_data, boundary_data)
       \<and> bd_boundary_edges boundary_data =
           [((0, 0), (1, 0)), ((1, 0), (1, 1)), ((1, 1), (0, 1)), ((0, 1), (0, 0))]
       \<and> find (\<lambda>d. edge_key d = edge_key ((0, 1), (0, 0)))
             (all_edges [[(0, 0), (1, 0), (1, 1)], [(0, 0), (1, 1), (0, 1)]])
           = Some ((0, 1), (0, 0))
       \<and> bd_min_u boundary_data = 0 \<and> bd_max_u boundary_data = 1
       \<and> bd_min_v boundary_data = 0 \<and> bd_max_v boundary_data = 1)"
proof -
  let ?ps = "[[(0, 0), (1, 0), (1, 1)], [(0, 0), (1, 1), (0, 1)]] :: polygon list"
  let ?props = "\<lparr>pipe_od = 76.2, bend_radius_multiplier = 1.5, bend_angle = 90,
                 num_segments = 5, wrap_thickness = 6.15, overlap = 10\<rparr>"
  have h1: "concat ?ps \<noteq> []" by simp
  have h2: "num_segments ?props \<noteq> 0" by simp
  from boundary_extraction_exact [OF h1 h2]
  obtain uv_data boundary_data where
    r: "extract_uv_data (Some ?ps) ?props = Inr (uv_data, boundary_data)"
    and b: "bd_boundary_edges boundary_data =
              filter (\<lambda>e. occurrences (all_edges ?ps) (edge_key e) = 1) (all_edges ?ps)"
    and f: "\<forall>e \<in> set (bd_boundary_edges boundary_data).
              find (\<lambda>d. edge_key d = edge_key e) (all_edges ?ps) = Some e"
    and m: "bd_min_u boundary_data = Min (fst ` set (concat ?ps))"
           "bd_max_u boundary_data = Max (fst ` set (concat ?ps))"
           "bd_min_v boundary_data = Min (snd ` set (concat ?ps))"
           "bd_max_v boundary_data = Max (snd ` set (concat ?ps))"
    by blast
  have ev: "filter (\<lambda>e. occurrences (all_edges ?ps) (edge_key e) = 1) (all_edges ?ps) =
              [((0, 0), (1, 0)), ((1, 0), (1, 1)), ((1, 1), (0, 1)), ((0, 1), (0, 0))]"
    by (simp add: occurrences_def all_edges_def polygon_edges_def edge_key_def sorted_tuple_def
          tuple_lt_def upt_rec)
  have be: "bd_boundary_edges boundary_data =
              [((0, 0), (1, 0)), ((1, 0), (1, 1)), ((1, 1), (0, 1)), ((0, 1), (0, 0))]"
    by (simp only: b ev)
  then have "((0, 1), (0, 0)) \<in> set (bd_boundary_edges boundary_data)" by simp
  with f have fnd: "find (\<lambda>d. edge_key d = edge_key ((0, 1), (0, 0))) (all_edges ?ps)
               = Some ((0, 1), (0, 0))"
    by (rule bspec)
  have bounds: "bd_min_u boundary_data = 0" "bd_max_u boundary_data = 1"
               "bd_min_v boundary_data = 0" "bd_max_v boundary_data = 1"
    using m by simp_all
  from be r fnd bounds have "\<exists>uv_data boundary_data.
         extract_uv_data (Some ?ps) ?props = Inr (uv_data, boundary_data)
       \<and> bd_boundary_edges boundary_data =
           [((0, 0), (1, 0)), ((1, 0), (1, 1)), ((1, 1), (0, 1)), ((0, 1), (0, 0))]
       \<and> find (\<lambda>d. edge_key d = edge_key ((0, 1), (0, 0))) (all_edges ?ps)
           = Some ((0, 1), (0, 0))
       \<and> bd_min_u boundary_data = 0 \<and> bd_max_u boundary_data = 1
       \<and> bd_min_v boundary_data = 0 \<and> bd_max_v boundary_data = 1"
    by blast
  with h1 h2 show ?thesis by blast
qed

text \<open>
  Claim C2, as amended. The extraction has no rejection of an edge key that occurs more
  than twice: for every collection of UV polygons with at least one vertex it returns,
  and an edge key with more than two occurrences is the key of no boundary edge returned.
\<close>

theorem over_shared_edges_dropped:
  assumes "concat polygons \<noteq> []" and "num_segments props \<noteq> 0"
  shows "\<exists>uv_data boundary_data.
           extract_uv_data (Some polygons) props = Inr (uv_data, boundary_data)
         \<and> (\<forall>k. 2 < occurrences (all_edges polygons) k
                 \<longrightarrow> k \<notin> edge_key ` set (bd_boundary_edges boundary_data))"
  using extract_uv_data_Inr [OF assms] by auto

theorem over_shared_edges_dropped_witness:
  "concat ([[(0, 0), (1, 0), (0, 1)], [(0, 0), (1, 0), (0, - 1)], [(0, 0), (1, 0), (1, 1)]] :: polygon list) \<noteq> []
   \<and> num_segments \<lparr>pipe_od = 76.2, bend_radius_multiplier = 1.5, bend_angle = 90,
         num_segments = 5, wrap_thickness = 6.15, overlap = 10\<rparr> \<noteq> 0
   \<and> 2 < occurrences (all_edges [[(0, 0), (1, 0), (0, 1)], [(0, 0), (1, 0), (0, - 1)],
                                  [(0, 0), (1, 0), (1, 1)]]) ((0, 0), (1, 0))
   \<and> (\<exists>uv_data boundary_data.
         extract_uv_data (Some [[(0, 0), (1, 0), (0, 1)], [(0, 0), (1, 0), (0, - 1)],
                                [(0, 0), (1, 0), (1, 1)]])
           \<lparr>pipe_od = 76.2, bend_radius_multiplier = 1.5, bend_angle = 90,
            num_segments = 5, wrap_thickness = 6.15, overlap = 10\<rparr>
           = Inr (uv_data, boundary_data)
       \<and> ((0, 0), (1, 0)) \<notin> edge_key ` set (bd_boundary_edges boundary_data))"
proof -
  let ?nm = "[[(0, 0), (1, 0), (0, 1)], [(0, 0), (1, 0), (0, - 1)], [(0, 0), (1, 0), (1, 1)]] :: polygon list"
  have occ: "2 < occurrences (all_edges ?nm) ((0, 0), (1, 0))"
    by (simp add: occurrences_def all_edges_def polygon_edges_def edge_key_def sorted_tuple_def
          tuple_lt_def upt_rec)
  show ?thesis
    using over_shared_edges_dropped [of ?nm
        "\<lparr>pipe_od = 76.2, bend_radius_multiplier = 1.5, bend_angle = 90,
          num_segments = 5, wrap_thickness = 6.15, overlap = 10\<rparr>"] occ
    by auto
qed

text \<open>
  Three triangles around the edge from \<open>(0, 0)\<close> to \<open>(1, 0)\<close>: its key occurs three
  times, and the extraction returns, with the six other edges as the boundary.
\<close>

theorem non_manifold_counterexample:
  "occurrences (all_edges [[(0, 0), (1, 0), (0, 1)], [(0, 0), (1, 0), (0, - 1)],
                           [(0, 0), (1, 0), (1, 1)]]) ((0, 0), (1, 0)) = 3
   \<and> extract_uv_data (Some [[(0, 0), (1, 0), (0, 1)], [(0, 0), (1, 0), (0, - 1)],
                             [(0, 0), (1, 0), (1, 1)]])
        \<lparr>pipe_od = 76.2, bend_radius_multiplier = 1.5, bend_angle = 90,
         num_segments = 5, wrap_thickness = 6.15, overlap = 10\<rparr>
     = Inr (\<lparr>uv_polygons = [[(0, 0), (1, 0), (0, 1)], [(0, 0), (1, 0), (0, - 1)],
                              [(0, 0), (1, 0), (1, 1)]],
              uv_min_u = 0, uv_max_u = 1, uv_min_v = - 1, uv_max_v = 1,
              pipe_circ_mm = pi * 381 / 5, pipe_arc_mm = 1143 * pi / 100,
              wrap_width = 177 * pi / 2 + 10, wrap_arc_length = 2409 * pi / 200,
              uv_overlap = 10\<rparr>,
            \<lparr>bd_boundary_edges =
               [((1, 0), (0, 1)), ((0, 1), (0, 0)), ((1, 0), (0, - 1)),
                ((0, - 1), (0, 0)), ((1, 0), (1, 1)), ((1, 1), (0, 0))],
              bd_min_u = 0, bd_max_u = 1, bd_min_v = - 1, bd_max_v = 1\<rparr>)"
  by (simp add: extract_uv_data_def py_min_def py_max_def count_polygons_def count_polygon_def
        count_edge_def sorted_tuple_def tuple_lt_def dict_get_def upt_rec calc_dimensions_def
        py_div_def radians_def Let_def occurrences_def all_edges_def polygon_edges_def
        edge_key_def)

section \<open>Layout and drawing\<close>

subsection \<open>The outline loops\<close>

lemma normalize_norm_coord: "normalize x lo hi = Inr (norm_coord x lo hi)"
  by (simp add: normalize_def norm_coord_def py_div_def)

lemma normalize_edge_Inr:
  "normalize_edge min_u max_u min_v max_v ((u1, v1), (u2, v2)) =
     Inr (norm_coord u1 min_u max_u, norm_coord v1 min_v max_v,
          norm_coord u2 min_u max_u, norm_coord v2 min_v max_v)"
  by (simp add: normalize_edge_def normalize_norm_coord)

lemma for_each_map: "(\<And>x. x \<in> set xs \<Longrightarrow> body x = Inr (f x)) \<Longrightarrow> for_each body xs = Inr (map f xs)"
  by (induction xs) simp_all

lemma draw_loop_concat:
  "(\<And>e. e \<in> set es \<Longrightarrow> body e = Inr (f e)) \<Longrightarrow> draw_loop body es = Inr (concat (map f es))"
  by (simp add: draw_loop_def for_each_map)

lemma concat_map_if: "concat (map (\<lambda>e. if P (g e) then [h (g e)] else []) es) = map h (filter P (map g es))"
  by (induction es) simp_all

lemma base_edge_line_Inr:
  "\<exists>l. base_edge_line mm min_u max_u min_v max_v base_w base_h template_x template_y
          base_offset_x base_offset_y e = Inr l"
  by (cases e rule: prod.exhaust [where 'a = point and 'b = point])
     (auto simp: base_edge_line_def normalize_edge_Inr Let_def)

lemma wrap_edge_line_Inr:
  "\<exists>l. wrap_edge_line mm min_u max_u min_v max_v wrap_w wrap_h template_x template_y e = Inr l"
  by (cases e rule: prod.exhaust [where 'a = point and 'b = point])
     (auto simp: wrap_edge_line_def normalize_edge_Inr Let_def)

lemma clip_to_section_iff:
  "clip_to_section x_start x_end x1 x2 = drawn_in_section x_start x_end (x1, y1, x2, y2)"
  by (auto simp: clip_to_section_def drawn_in_section_def)

lemma base_edge_line_clipped_Inr:
  "base_edge_line_clipped mm min_u max_u min_v max_v base_w base_h x_start x_end
       template_x template_y ((wrap_w - base_w) / 2) ((wrap_h - base_h) / 2) e =
     Inr (if drawn_in_section x_start x_end
               (base_outline_mm min_u max_u min_v max_v base_w base_h wrap_w wrap_h e)
          then [section_line mm x_start template_x template_y
                  (base_outline_mm min_u max_u min_v max_v base_w base_h wrap_w wrap_h e)]
          else [])"
proof -
  obtain u1 v1 u2 v2 where e: "e = ((u1, v1), (u2, v2))" by (metis surj_pair)
  show ?thesis
    unfolding e
    by (simp add: base_edge_line_clipped_def normalize_edge_Inr Let_def base_outline_mm_def
          section_line_def clip_to_section_iff [where ?y1.0 = 0 and ?y2.0 = 0] drawn_in_section_def)
qed

lemma wrap_edge_line_clipped_Inr:
  "wrap_edge_line_clipped mm min_u max_u min_v max_v wrap_w wrap_h x_start x_end
       template_x template_y e =
     Inr (if drawn_in_section x_start x_end (wrap_outline_mm min_u max_u min_v max_v wrap_w wrap_h e)
          then [section_line mm x_start template_x template_y
                  (wrap_outline_mm min_u max_u min_v max_v wrap_w wrap_h e)]
          else [])"
proof -
  obtain u1 v1 u2 v2 where e: "e = ((u1, v1), (u2, v2))" by (metis surj_pair)
  show ?thesis
    unfolding e
    by (simp add: wrap_edge_line_clipped_def normalize_edge_Inr Let_def wrap_outline_mm_def
          section_line_def clip_to_section_iff [where ?y1.0 = 0 and ?y2.0 = 0] drawn_in_section_def)
qed

lemma draw_loop_total:
  "(\<And>e. \<exists>l. body e = Inr l) \<Longrightarrow> \<exists>ls. draw_loop body es = Inr ls"
proof -
  assume "\<And>e. \<exists>l. body e = Inr l"
  then have "\<forall>e. \<exists>l. body e = Inr l" by blast
  then obtain f where f: "\<And>e. body e = Inr (f e)" by metis
  have "draw_loop body es = Inr (concat (map f es))" by (rule draw_loop_concat) (rule f)
  then show ?thesis by blast
qed

lemma draw_loop_base_total:
  "\<exists>ls. draw_loop (base_edge_line mm min_u max_u min_v max_v base_w base_h template_x template_y
                       base_offset_x base_offset_y) es = Inr ls"
  by (rule draw_loop_total) (rule base_edge_line_Inr)

lemma draw_loop_wrap_total:
  "\<exists>ls. draw_loop (wrap_edge_line mm min_u max_u min_v max_v wrap_w wrap_h template_x template_y)
          es = Inr ls"
  by (rule draw_loop_total) (rule wrap_edge_line_Inr)

lemma draw_split_half_lines:
  "draw_split_half mm boundary_edges min_u max_u min_v max_v base_w base_h wrap_w wrap_h
       x_start x_end template_y page_w half_width =
     Inr (map (section_line mm x_start ((page_w - half_width * mm) / 2) template_y)
            (filter (drawn_in_section x_start x_end)
               (map (base_outline_mm min_u max_u min_v max_v base_w base_h wrap_w wrap_h)
                  boundary_edges)),
          map (section_line mm x_start ((page_w - half_width * mm) / 2) template_y)
            (filter (drawn_in_section x_start x_end)
               (map (wrap_outline_mm min_u max_u min_v max_v wrap_w wrap_h) boundary_edges)))"
  unfolding draw_split_half_def Let_def
  by (simp add: draw_loop_concat [OF base_edge_line_clipped_Inr]
        draw_loop_concat [OF wrap_edge_line_clipped_Inr] concat_map_if)

lemma draw_split_page_lines:
  "draw_split_page mm boundary_edges min_u max_u min_v max_v base_w base_h wrap_w wrap_h
       x_start x_end page_w page_h =
     Inr (map (section_line mm x_start ((page_w - (x_end - x_start) * mm) / 2)
                 (page_h / 2 - (wrap_h * mm) / 2))
            (filter (drawn_in_section x_start x_end)
               (map (base_outline_mm min_u max_u min_v max_v base_w base_h wrap_w wrap_h)
                  boundary_edges)),
          map (section_line mm x_start ((page_w - (x_end - x_start) * mm) / 2)
                 (page_h / 2 - (wrap_h * mm) / 2))
            (filter (drawn_in_section x_start x_end)
               (map (wrap_outline_mm min_u max_u min_v max_v wrap_w wrap_h) boundary_edges)))"
  unfolding draw_split_page_def Let_def
  by (simp add: draw_loop_concat [OF base_edge_line_clipped_Inr]
        draw_loop_concat [OF wrap_edge_line_clipped_Inr] concat_map_if)

lemma draw_single_template_page_total:
  "\<exists>ls. draw_single_template_page mm boundary_edges min_u max_u min_v max_v base_w base_h
          wrap_w wrap_h page_w page_h = Inr ls"
proof -
  let ?ty = "(page_h - wrap_h * mm) / 2 - 10 * mm"
  let ?tx = "(page_w - wrap_w * mm) / 2"
  obtain b where b: "draw_loop (base_edge_line mm min_u max_u min_v max_v base_w base_h ?tx ?ty
                       ((wrap_w - base_w) / 2) ((wrap_h - base_h) / 2)) boundary_edges = Inr b"
    using draw_loop_base_total by blast
  obtain r where r: "draw_loop (wrap_edge_line mm min_u max_u min_v max_v wrap_w wrap_h ?tx ?ty)
                       boundary_edges = Inr r"
    using draw_loop_wrap_total by blast
  show ?thesis
    by (simp add: draw_single_template_page_def Let_def b r)
qed

lemma generate_single_page_total:
  "\<exists>ls. generate_single_page mm boundary_edges min_u max_u min_v max_v base_w base_h
          wrap_w wrap_h page_w margin = Inr ls"
proof -
  let ?tx = "(page_w - wrap_w * mm) / 2"
  let ?body = "\<lambda>(template_y, label :: string).
     bind_err (draw_loop (base_edge_line mm min_u max_u min_v max_v base_w base_h ?tx template_y
                            ((wrap_w - base_w) / 2) ((wrap_h - base_h) / 2)) boundary_edges)
       (\<lambda>blue_lines.
     bind_err (draw_loop (wrap_edge_line mm min_u max_u min_v max_v wrap_w wrap_h ?tx template_y)
                  boundary_edges)
       (\<lambda>red_lines. Inr (blue_lines, red_lines)))"
  have body: "\<exists>l. ?body p = Inr l" for p
  proof -
    obtain ty label where p: "p = (ty, label)" by (cases p)
    obtain b where b: "draw_loop (base_edge_line mm min_u max_u min_v max_v base_w base_h ?tx ty
                       ((wrap_w - base_w) / 2) ((wrap_h - base_h) / 2)) boundary_edges = Inr b"
      using draw_loop_base_total by blast
    obtain r where r: "draw_loop (wrap_edge_line mm min_u max_u min_v max_v wrap_w wrap_h ?tx ty)
                       boundary_edges = Inr r"
      using draw_loop_wrap_total by blast
    show ?thesis by (simp add: p b r)
  qed
  then have "\<forall>p. \<exists>l. ?body p = Inr l" by blast
  then obtain f where f: "\<And>p. ?body p = Inr (f p)" by metis
  have "for_each ?body ps = Inr (map f ps)" for ps
    by (rule for_each_map) (rule f)
  then show ?thesis
    by (simp add: generate_single_page_def Let_def)
qed

subsection \<open>Layout mode, split sections, clipping and normalisation\<close>

text \<open>
  Claim C4. The layout mode is a function of the wrap size, the printable size, the
  spacing and the split overlap, and it is the one the specification describes: with
  \<open>needs_width_split = wrap_width > printable_width\<close> and
  \<open>stack_height = 2 \<times> wrap_height + spacing\<close>, the mode is \<open>SINGLE_PAGE_STACKED\<close> when
  there is no split and \<open>stack_height \<le> printable_height\<close>, \<open>SINGLE_MULTIPAGE\<close> when
  there is no split otherwise, \<open>SPLIT_SAME_PAGE\<close> when there is a split and
  \<open>stack_height \<le> printable_height\<close>, and \<open>SPLIT_SEPARATE_PAGES\<close> when there is a split
  otherwise. The printable width is the page width less the two margins, the printable
  height the page height less title space, scale space and the two margins, both taken
  in millimetres; the spacing is 15 mm.
\<close>

theorem layout_mode_selection:
  assumes "0 < mm"
  shows "generate_pdf mm (page_w, page_h) props uv_data =
           Inr (filename props,
                spec_layout_mode (wrap_width uv_data) (wrap_arc_length uv_data)
                  ((page_w - 2 * (6 * mm)) / mm)
                  ((page_h - 30 * mm - 20 * mm - 2 * (6 * mm)) / mm)
                  15 split_overlap)"
proof -
  have h: "2 * wrap_arc_length uv_data * mm + 15 * mm \<le> page_h - 30 * mm - 20 * mm - 2 * (6 * mm)
        \<longleftrightarrow> 2 * wrap_arc_length uv_data + 15 \<le> (page_h - 30 * mm - 20 * mm - 2 * (6 * mm)) / mm"
    using assms by (simp add: pos_le_divide_eq algebra_simps)
  have d: "py_div (page_w - 2 * (6 * mm)) mm = Inr ((page_w - 2 * (6 * mm)) / mm)"
    using assms by (simp add: py_div_def)
  show ?thesis
    unfolding generate_pdf_def spec_layout_mode_def Let_def
    by (simp only: prod.case d bind_err_Inr h) simp
qed

theorem layout_mode_selection_witness:
  "0 < reportlab_mm
   \<and> generate_pdf reportlab_mm (297 * reportlab_mm, 210 * reportlab_mm)
        \<lparr>pipe_od = 76.2, bend_radius_multiplier = 1.5, bend_angle = 90,
         num_segments = 5, wrap_thickness = 6.15, overlap = 10\<rparr>
        \<lparr>uv_polygons = [], uv_min_u = 0, uv_max_u = 1, uv_min_v = 0, uv_max_v = 1,
         pipe_circ_mm = 239.4, pipe_arc_mm = 35.9, wrap_width = 288.1,
         wrap_arc_length = 37.8, uv_overlap = 10\<rparr>
     = Inr (filename \<lparr>pipe_od = 76.2, bend_radius_multiplier = 1.5, bend_angle = 90,
                      num_segments = 5, wrap_thickness = 6.15, overlap = 10\<rparr>,
            SPLIT_SAME_PAGE)"
proof -
  have pos: "0 < reportlab_mm" by (simp add: reportlab_mm_def)
  show ?thesis
    using pos layout_mode_selection [OF pos, of "297 * reportlab_mm" "210 * reportlab_mm"
        "\<lparr>pipe_od = 76.2, bend_radius_multiplier = 1.5, bend_angle = 90,
          num_segments = 5, wrap_thickness = 6.15, overlap = 10\<rparr>"
        "\<lparr>uv_polygons = [], uv_min_u = 0, uv_max_u = 1, uv_min_v = 0, uv_max_v = 1,
          pipe_circ_mm = 239.4, pipe_arc_mm = 35.9, wrap_width = 288.1,
          wrap_arc_length = 37.8, uv_overlap = 10\<rparr>"]
    by (simp add: spec_layout_mode_def split_overlap_def reportlab_mm_def)
qed

text \<open>
  In a run of \<^verbatim>\<open>generate_pdf\<close> on a landscape A4 page that chooses a split mode, the
  template is wider than the 285 mm of printable width, so the overlap of 20 mm is at most
  half the wrap width.
\<close>

lemma split_modes_on_A4:
  assumes "generate_pdf reportlab_mm landscape_A4 props uv_data = Inr (name, mode)"
    and "mode = SPLIT_SAME_PAGE \<or> mode = SPLIT_SEPARATE_PAGES"
  shows "285 < wrap_width uv_data \<and> split_overlap \<le> wrap_width uv_data / 2"
proof -
  have d: "py_div (297 * reportlab_mm - 2 * (6 * reportlab_mm)) reportlab_mm = Inr 285"
    by (simp add: py_div_def reportlab_mm_def)
  from assms have "285 < wrap_width uv_data"
    unfolding generate_pdf_def landscape_A4_def Let_def
    by (simp only: prod.case d bind_err_Inr) (auto split: if_splits)
  then show ?thesis by (simp add: split_overlap_def)
qed

text \<open>
  Claim C5. For every \<open>wrap_width > 0\<close> and \<open>split_overlap > 0\<close>, both split generators
  give the LEFT half the x-range \<open>[0, wrap_width / 2 + split_overlap]\<close> and the RIGHT half
  the x-range \<open>[wrap_width / 2 - split_overlap, wrap_width]\<close>, each of width
  \<open>wrap_width / 2 + split_overlap\<close>, and the two widths less the band of width
  \<open>2 \<times> split_overlap\<close> add up to \<open>wrap_width\<close>. In the split modes, that is when
  \<^verbatim>\<open>generate_pdf\<close> chooses a split generator and calls it with the wrap width and its
  overlap, the union of the two x-ranges is exactly \<open>[0, wrap_width]\<close> and they meet in
  the band of width \<open>2 \<times> split_overlap\<close> around the middle.
\<close>

theorem split_halves_cover:
  assumes "0 < wrap_w" and "0 < split_ovl"
  shows "generate_split_same_page wrap_w split_ovl =
           [(''LEFT HALF'', 0, wrap_w / 2 + split_ovl, wrap_w / 2 + split_ovl),
            (''RIGHT HALF'', wrap_w / 2 - split_ovl, wrap_w, wrap_w / 2 + split_ovl)]
       \<and> generate_split_separate_pages wrap_w split_ovl =
           [(''LEFT HALF (1 of 2)'', 0, wrap_w / 2 + split_ovl, wrap_w / 2 + split_ovl),
            (''RIGHT HALF (2 of 2)'', wrap_w / 2 - split_ovl, wrap_w, wrap_w / 2 + split_ovl)]
       \<and> (wrap_w / 2 + split_ovl) + (wrap_w / 2 + split_ovl) - 2 * split_ovl = wrap_w
       \<and> (generate_pdf reportlab_mm landscape_A4 props uv_data = Inr (name, mode)
            \<and> (mode = SPLIT_SAME_PAGE \<or> mode = SPLIT_SEPARATE_PAGES)
            \<and> wrap_w = wrap_width uv_data \<and> split_ovl = split_overlap
          \<longrightarrow> x_range (generate_split_same_page wrap_w split_ovl ! 0)
                \<union> x_range (generate_split_same_page wrap_w split_ovl ! 1) = {0..wrap_w}
            \<and> x_range (generate_split_separate_pages wrap_w split_ovl ! 0)
                \<union> x_range (generate_split_separate_pages wrap_w split_ovl ! 1) = {0..wrap_w}
            \<and> x_range (generate_split_same_page wrap_w split_ovl ! 0)
                \<inter> x_range (generate_split_same_page wrap_w split_ovl ! 1)
                = {wrap_w / 2 - split_ovl..wrap_w / 2 + split_ovl}
            \<and> x_range (generate_split_separate_pages wrap_w split_ovl ! 0)
                \<inter> x_range (generate_split_separate_pages wrap_w split_ovl ! 1)
                = {wrap_w / 2 - split_ovl..wrap_w / 2 + split_ovl})"
proof -
  have 1: "generate_split_same_page wrap_w split_ovl =
           [(''LEFT HALF'', 0, wrap_w / 2 + split_ovl, wrap_w / 2 + split_ovl),
            (''RIGHT HALF'', wrap_w / 2 - split_ovl, wrap_w, wrap_w / 2 + split_ovl)]"
    by (simp add: generate_split_same_page_def Let_def)
  have 2: "generate_split_separate_pages wrap_w split_ovl =
           [(''LEFT HALF (1 of 2)'', 0, wrap_w / 2 + split_ovl, wrap_w / 2 + split_ovl),
            (''RIGHT HALF (2 of 2)'', wrap_w / 2 - split_ovl, wrap_w, wrap_w / 2 + split_ovl)]"
    by (simp add: generate_split_separate_pages_def Let_def)
  have 3: "(wrap_w / 2 + split_ovl) + (wrap_w / 2 + split_ovl) - 2 * split_ovl = wrap_w"
    by simp
  have 4: "{0..wrap_w / 2 + split_ovl} \<union> {wrap_w / 2 - split_ovl..wrap_w} = {0..wrap_w}
         \<and> {0..wrap_w / 2 + split_ovl} \<inter> {wrap_w / 2 - split_ovl..wrap_w}
             = {wrap_w / 2 - split_ovl..wrap_w / 2 + split_ovl}"
    if run: "generate_pdf reportlab_mm landscape_A4 props uv_data = Inr (name, mode)"
      and mode: "mode = SPLIT_SAME_PAGE \<or> mode = SPLIT_SEPARATE_PAGES"
      and w: "wrap_w = wrap_width uv_data" and s: "split_ovl = split_overlap"
  proof -
    from split_modes_on_A4 [OF run mode] w s have le: "split_ovl \<le> wrap_w / 2" by simp
    have u: "{0..wrap_w / 2 + split_ovl} \<union> {wrap_w / 2 - split_ovl..wrap_w} = {0..wrap_w}"
      using assms le by (auto simp: field_simps)
    have i: "{0..wrap_w / 2 + split_ovl} \<inter> {wrap_w / 2 - split_ovl..wrap_w}
             = {wrap_w / 2 - split_ovl..wrap_w / 2 + split_ovl}"
      using assms le by (auto simp: field_simps)
    from u i show ?thesis by simp
  qed
  show ?thesis
    unfolding 1 2 using 3 4 by (simp add: x_range_def)
qed

theorem split_halves_cover_witness:
  "(0 :: real) < 300 \<and> (0 :: real) < 20
   \<and> generate_pdf reportlab_mm landscape_A4
        \<lparr>pipe_od = 76.2, bend_radius_multiplier = 1.5, bend_angle = 90,
         num_segments = 5, wrap_thickness = 6.15, overlap = 10\<rparr>
        \<lparr>uv_polygons = [], uv_min_u = 0, uv_max_u = 1, uv_min_v = 0, uv_max_v = 1,
         pipe_circ_mm = 239.4, pipe_arc_mm = 35.9, wrap_width = 300,
         wrap_arc_length = 37.8, uv_overlap = 10\<rparr>
       = Inr (filename \<lparr>pipe_od = 76.2, bend_radius_multiplier = 1.5, bend_angle = 90,
                        num_segments = 5, wrap_thickness = 6.15, overlap = 10\<rparr>,
              SPLIT_SAME_PAGE)
   \<and> split_overlap = 20
   \<and> generate_split_same_page 300 20 =
        [(''LEFT HALF'', 0, 170, 170), (''RIGHT HALF'', 130, 300, 170)]
   \<and> generate_split_separate_pages 300 20 =
        [(''LEFT HALF (1 of 2)'', 0, 170, 170), (''RIGHT HALF (2 of 2)'', 130, 300, 170)]
   \<and> x_range (generate_split_same_page 300 20 ! 0)
        \<union> x_range (generate_split_same_page 300 20 ! 1) = {0..300}
   \<and> x_range (generate_split_separate_pages 300 20 ! 0)
        \<union> x_range (generate_split_separate_pages 300 20 ! 1) = {0..300}
   \<and> x_range (generate_split_same_page 300 20 ! 0)
        \<inter> x_range (generate_split_same_page 300 20 ! 1) = {130..170}"
proof -
  let ?props = "\<lparr>pipe_od = 76.2, bend_radius_multiplier = 1.5, bend_angle = 90,
                 num_segments = 5, wrap_thickness = 6.15, overlap = 10\<rparr>"
  let ?uv = "\<lparr>uv_polygons = [], uv_min_u = 0, uv_max_u = 1, uv_min_v = 0, uv_max_v = 1,
              pipe_circ_mm = 239.4, pipe_arc_mm = 35.9, wrap_width = 300,
              wrap_arc_length = 37.8, uv_overlap = 10\<rparr>"
  have run: "generate_pdf reportlab_mm landscape_A4 ?props ?uv
               = Inr (filename ?props, SPLIT_SAME_PAGE)"
    by (simp add: generate_pdf_def landscape_A4_def reportlab_mm_def py_div_def bind_err_def
          Let_def)
  have pos: "(0 :: real) < 300" "(0 :: real) < 20" by simp_all
  have w: "300 = wrap_width ?uv" by simp
  have s: "20 = split_overlap" by (simp add: split_overlap_def)
  note th = split_halves_cover [OF pos, of ?props ?uv "filename ?props" SPLIT_SAME_PAGE]
  from th have g1: "generate_split_same_page 300 20 =
        [(''LEFT HALF'', 0, 170, 170), (''RIGHT HALF'', 130, 300, 170)]"
    and g2: "generate_split_separate_pages 300 20 =
        [(''LEFT HALF (1 of 2)'', 0, 170, 170), (''RIGHT HALF (2 of 2)'', 130, 300, 170)]"
    by simp_all
  from th run w s have c: "x_range (generate_split_same_page 300 20 ! 0)
        \<union> x_range (generate_split_same_page 300 20 ! 1) = {0..300}"
      "x_range (generate_split_separate_pages 300 20 ! 0)
        \<union> x_range (generate_split_separate_pages 300 20 ! 1) = {0..300}"
      "x_range (generate_split_same_page 300 20 ! 0)
        \<inter> x_range (generate_split_same_page 300 20 ! 1) = {300 / 2 - 20..300 / 2 + 20}"
    by blast+
  from c(3) have c3: "x_range (generate_split_same_page 300 20 ! 0)
        \<inter> x_range (generate_split_same_page 300 20 ! 1) = {130..170}"
    by simp
  from pos run s [symmetric] g1 g2 c(1) c(2) c3 show ?thesis by blast
qed

text \<open>
  Claim C6. In both split drawing routines, and for both outlines, the segments drawn are
  those of the boundary edges, in order, whose endpoints in millimetres \<open>x1\<close> and \<open>x2\<close>
  satisfy the clipping rule for the window \<open>[x_start, x_end]\<close>: \<open>x1\<close> is in the window,
  or \<open>x2\<close> is, or the two lie outside the window on opposite sides of it. In
  particular an edge with \<open>x1 < x_start\<close> and \<open>x_end < x2\<close> is drawn.
\<close>

theorem split_clipping_rule:
  "draw_split_half mm boundary_edges min_u max_u min_v max_v base_w base_h wrap_w wrap_h
       x_start x_end template_y page_w half_width =
     Inr (map (section_line mm x_start ((page_w - half_width * mm) / 2) template_y)
            (filter (drawn_in_section x_start x_end)
               (map (base_outline_mm min_u max_u min_v max_v base_w base_h wrap_w wrap_h)
                  boundary_edges)),
          map (section_line mm x_start ((page_w - half_width * mm) / 2) template_y)
            (filter (drawn_in_section x_start x_end)
               (map (wrap_outline_mm min_u max_u min_v max_v wrap_w wrap_h) boundary_edges)))
   \<and> draw_split_page mm boundary_edges min_u max_u min_v max_v base_w base_h wrap_w wrap_h
       x_start x_end page_w page_h =
     Inr (map (section_line mm x_start ((page_w - (x_end - x_start) * mm) / 2)
                 (page_h / 2 - (wrap_h * mm) / 2))
            (filter (drawn_in_section x_start x_end)
               (map (base_outline_mm min_u max_u min_v max_v base_w base_h wrap_w wrap_h)
                  boundary_edges)),
          map (section_line mm x_start ((page_w - (x_end - x_start) * mm) / 2)
                 (page_h / 2 - (wrap_h * mm) / 2))
            (filter (drawn_in_section x_start x_end)
               (map (wrap_outline_mm min_u max_u min_v max_v wrap_w wrap_h) boundary_edges)))
   \<and> (drawn_in_section x_start x_end (xa, ya, xb, yb) \<longleftrightarrow>
        (x_start \<le> xa \<and> xa \<le> x_end) \<or> (x_start \<le> xb \<and> xb \<le> x_end)
        \<or> (xa < x_start \<and> x_end < xb) \<or> (xb < x_start \<and> x_end < xa))
   \<and> (xa < x_start \<and> x_end < xb \<longrightarrow> drawn_in_section x_start x_end (xa, ya, xb, yb))"
  by (simp add: draw_split_half_lines draw_split_page_lines drawn_in_section_def)

theorem split_clipping_rule_witness:
  "(0.2 :: real) < 0.3 \<and> (0.4 :: real) < 0.5
   \<and> drawn_in_section 0.3 0.4 (0.2, 0, 0.5, 1)
   \<and> draw_split_half 1 [((0, 0.2), (1, 0.5))] 0 1 0 1 1 1 1 1 0.3 0.4 0 10 1
       = Inr ([(4.4, 0, 4.7, 1)], [(4.4, 0, 4.7, 1)])
   \<and> draw_split_page 1 [((0, 0.2), (1, 0.5))] 0 1 0 1 1 1 1 1 0.3 0.4 10 10
       = Inr ([(4.85, 4.5, 5.15, 5.5)], [(4.85, 4.5, 5.15, 5.5)])"
  using split_clipping_rule [where mm = 1 and boundary_edges = "[((0, 0.2), (1, 0.5))]"
           and min_u = 0 and max_u = 1 and min_v = 0 and max_v = 1 and base_w = 1 and base_h = 1
           and wrap_w = 1 and wrap_h = 1 and x_start = "0.3" and x_end = "0.4" and template_y = 0
           and page_w = 10 and half_width = 1 and page_h = 10
           and xa = "0.2" and ya = 0 and xb = "0.5" and yb = 1]
  by (simp add: drawn_in_section_def base_outline_mm_def wrap_outline_mm_def norm_coord_def
        section_line_def)

text \<open>
  Claim C10. The normalisation never raises: it returns the quotient when the range is
  positive and 0 otherwise, so 0 when the bounding box is degenerate along the axis
  (\<open>hi = lo\<close>); and none of the four outline drawing routines raises, whatever the
  bounding box.
\<close>

theorem normalization_total:
  "normalize x lo hi = Inr (norm_coord x lo hi)
   \<and> (hi = lo \<longrightarrow> normalize x lo hi = Inr 0)
   \<and> (\<exists>ls. generate_single_page mm boundary_edges min_u max_u min_v max_v base_w base_h
               wrap_w wrap_h page_w margin = Inr ls)
   \<and> (\<exists>ls. draw_single_template_page mm boundary_edges min_u max_u min_v max_v base_w base_h
               wrap_w wrap_h page_w page_h = Inr ls)
   \<and> (\<exists>ls. draw_split_half mm boundary_edges min_u max_u min_v max_v base_w base_h wrap_w wrap_h
               x_start x_end template_y page_w half_width = Inr ls)
   \<and> (\<exists>ls. draw_split_page mm boundary_edges min_u max_u min_v max_v base_w base_h wrap_w wrap_h
               x_start x_end page_w page_h = Inr ls)"
  using generate_single_page_total draw_single_template_page_total
  by (simp add: normalize_norm_coord norm_coord_def draw_split_half_lines draw_split_page_lines)

theorem normalization_total_witness:
  "(2 :: real) = 2
   \<and> normalize 5 2 2 = Inr 0
   \<and> (\<exists>ls. draw_single_template_page 1 [((2, 0), (2, 1))] 2 2 0 1 1 1 1 1 10 10 = Inr ls)"
  using normalization_total [where x = 5 and lo = 2 and hi = 2 and mm = 1
           and boundary_edges = "[((2, 0), (2, 1))]" and min_u = 2 and max_u = 2 and min_v = 0
           and max_v = 1 and base_w = 1 and base_h = 1 and wrap_w = 1 and wrap_h = 1
           and page_w = 10 and page_h = 10 and margin = 0 and x_start = 0 and x_end = 1
           and template_y = 0 and half_width = 1]
  by (simp add: norm_coord_def)

section \<open>The seam\<close>

lemma Min_insert_min:
  "finite S \<Longrightarrow> Min (insert (min a b) S) = Min (insert a (insert b S))" for a b :: real
  by (cases "S = {}") (simp_all add: min.assoc)

lemma fold_min_radius_Some:
  assumes step: "\<And>v acc. f v acc =
            (case acc of None \<Rightarrow> Some (planar_radius v)
             | Some m \<Rightarrow> if planar_radius v < m then Some (planar_radius v) else Some m)"
  shows "fold f vs (Some m) = Some (Min (insert m (planar_radius ` set vs)))"
proof (induction vs arbitrary: m)
  case Nil
  show ?case by simp
next
  case (Cons v vs)
  have "f v (Some m) = Some (min (planar_radius v) m)"
    by (auto simp: step min_def)
  moreover have "Min (insert (min (planar_radius v) m) (planar_radius ` set vs))
          = Min (insert m (insert (planar_radius v) (planar_radius ` set vs)))"
    by (simp add: Min_insert_min insert_commute)
  ultimately show ?case using Cons.IH by simp
qed

lemma find_min_radius_Min:
  assumes "vs \<noteq> []"
  shows "find_min_radius vs = Some (Min (planar_radius ` set vs))"
proof -
  let ?f = "\<lambda>v min_radius.
             (let radius = planar_radius v
              in case min_radius of
                   None \<Rightarrow> Some radius
                 | Some m \<Rightarrow> if radius < m then Some radius else Some m)"
  have step: "?f v acc =
            (case acc of None \<Rightarrow> Some (planar_radius v)
             | Some m \<Rightarrow> if planar_radius v < m then Some (planar_radius v) else Some m)" for v acc
    by (simp add: Let_def)
  from assms obtain a list where vs: "vs = a # list" by (cases vs) auto
  have "find_min_radius vs = fold ?f list (?f a None)"
    unfolding find_min_radius_def vs by (simp only: fold_simps)
  also have "?f a None = Some (planar_radius a)" by (simp add: Let_def)
  also have "fold ?f list (Some (planar_radius a)) =
               Some (Min (insert (planar_radius a) (planar_radius ` set list)))"
    by (rule fold_min_radius_Some) (rule step)
  finally show ?thesis by (simp add: vs)
qed

lemma is_seam_Some:
  "is_seam (Some m) (v1, v2) \<longleftrightarrow>
     \<bar>co_z v1\<bar> < 0.5 \<and> \<bar>co_z v2\<bar> < 0.5
     \<and> \<bar>planar_radius v1 - m\<bar> < 1 \<and> \<bar>planar_radius v2 - m\<bar> < 1"
  by (auto simp: is_seam_def z_tolerance_def radius_tolerance_def Let_def)

text \<open>
  Claim C8. For every mesh with a vertex, an edge is marked as a seam edge if and only if
  both endpoints have \<open>|z|\<close> below the z-tolerance 0.5 and both endpoints have a planar
  radius (the distance from the bend axis in the XY plane) that differs by less than the
  tolerance 1.0 from the minimum planar radius over all vertices of the mesh.
\<close>

theorem seam_edges_rule:
  assumes "verts bm \<noteq> []"
  shows "mark_seams bm =
           map (\<lambda>(v1, v2).
                  \<bar>co_z v1\<bar> < 0.5 \<and> \<bar>co_z v2\<bar> < 0.5
                  \<and> \<bar>planar_radius v1 - Min (planar_radius ` set (verts bm))\<bar> < 1
                  \<and> \<bar>planar_radius v2 - Min (planar_radius ` set (verts bm))\<bar> < 1)
               (edges bm)"
proof -
  have "mark_seams bm = map (is_seam (Some (Min (planar_radius ` set (verts bm))))) (edges bm)"
    by (simp add: mark_seams_def find_min_radius_Min [OF assms] Let_def)
  also have "\<dots> = map (\<lambda>(v1, v2).
                  \<bar>co_z v1\<bar> < 0.5 \<and> \<bar>co_z v2\<bar> < 0.5
                  \<and> \<bar>planar_radius v1 - Min (planar_radius ` set (verts bm))\<bar> < 1
                  \<and> \<bar>planar_radius v2 - Min (planar_radius ` set (verts bm))\<bar> < 1)
               (edges bm)"
    by (rule map_cong [OF refl]) (simp only: split_paired_all prod.case is_seam_Some)
  finally show ?thesis .
qed

theorem seam_edges_rule_witness:
  "verts \<lparr>verts = [(1, 0, 0), (1, 0, 0.2), (2, 0, 0)],
          edges = [((1, 0, 0), (1, 0, 0.2)), ((1, 0, 0), (2, 0, 0))]\<rparr> \<noteq> []
   \<and> mark_seams \<lparr>verts = [(1, 0, 0), (1, 0, 0.2), (2, 0, 0)],
                  edges = [((1, 0, 0), (1, 0, 0.2)), ((1, 0, 0), (2, 0, 0))]\<rparr>
       = [True, False]"
  using seam_edges_rule [of "\<lparr>verts = [(1, 0, 0), (1, 0, 0.2), (2, 0, 0)],
          edges = [((1, 0, 0), (1, 0, 0.2)), ((1, 0, 0), (2, 0, 0))]\<rparr>"]
  by (simp add: planar_radius_def co_x_def co_y_def co_z_def)

section \<open>The file name\<close>

subsection \<open>Decimal digits\<close>

lemma lt10_cases: "n < 10 \<Longrightarrow> n \<in> {0, 1, 2, 3, 4, 5, 6, 7, 8, 9 :: nat}"
  by (simp only: insert_iff empty_iff) arith

lemma is_digit_digit_char: "n < 10 \<Longrightarrow> is_digit (digit_char n)"
  using lt10_cases [of n] by (auto simp: is_digit_def digit_char_def)

lemma digit_char_inj: "n < 10 \<Longrightarrow> m < 10 \<Longrightarrow> digit_char n = digit_char m \<Longrightarrow> n = m"
  using lt10_cases [of n] lt10_cases [of m] by (auto simp: digit_char_def)

lemma is_digit_not_special:
  "is_digit c \<Longrightarrow> c \<noteq> CHR ''_'' \<and> c \<noteq> CHR ''.'' \<and> c \<noteq> CHR ''-''"
  by (auto simp: is_digit_def)

lemma str_nat_digits: "c \<in> set (str_nat n) \<Longrightarrow> is_digit c"
proof (induction n arbitrary: c rule: str_nat.induct)
  case (1 n)
  show ?case
  proof (cases "n < 10")
    case True
    with "1.prems" show ?thesis by (simp add: str_nat.simps [of n] is_digit_digit_char)
  next
    case False
    with "1.prems" have "c \<in> set (str_nat (n div 10)) \<or> c = digit_char (n mod 10)"
      by (auto simp: str_nat.simps [of n])
    then show ?thesis
      using "1.IH" [OF False] by (auto simp: is_digit_digit_char)
  qed
qed

lemma str_nat_not_Nil: "str_nat n \<noteq> []"
  by (simp add: str_nat.simps [of n])

lemma str_nat_inj: "str_nat n = str_nat m \<Longrightarrow> n = m"
proof (induction n arbitrary: m rule: str_nat.induct)
  case (1 n)
  show ?case
  proof (cases "n < 10")
    case True
    then have n: "str_nat n = [digit_char n]" by (simp add: str_nat.simps [of n])
    have "m < 10"
    proof (rule ccontr)
      assume "\<not> m < 10"
      then have "str_nat m = str_nat (m div 10) @ [digit_char (m mod 10)]"
        by (simp add: str_nat.simps [of m])
      with n "1.prems" have "str_nat (m div 10) = []" by simp
      then show False by (simp add: str_nat_not_Nil)
    qed
    then have "str_nat m = [digit_char m]" by (simp add: str_nat.simps [of m])
    with n "1.prems" True \<open>m < 10\<close> show ?thesis by (simp add: digit_char_inj)
  next
    case False
    then have n: "str_nat n = str_nat (n div 10) @ [digit_char (n mod 10)]"
      by (simp add: str_nat.simps [of n])
    have "\<not> m < 10"
    proof
      assume "m < 10"
      then have "str_nat m = [digit_char m]" by (simp add: str_nat.simps [of m])
      with n "1.prems" have "str_nat (n div 10) = []" by simp
      then show False by (simp add: str_nat_not_Nil)
    qed
    then have m: "str_nat m = str_nat (m div 10) @ [digit_char (m mod 10)]"
      by (simp add: str_nat.simps [of m])
    from n m "1.prems" have eq: "str_nat (n div 10) = str_nat (m div 10)"
      and d: "digit_char (n mod 10) = digit_char (m mod 10)" by simp_all
    from "1.IH" [OF False eq] have "n div 10 = m div 10" .
    moreover from d have "n mod 10 = m mod 10" by (simp add: digit_char_inj)
    ultimately show ?thesis by (metis div_mult_mod_eq)
  qed
qed

lemma length_fixed_digits: "length (fixed_digits d n) = d"
  by (induction d arbitrary: n) simp_all

lemma fixed_digits_digits: "c \<in> set (fixed_digits d n) \<Longrightarrow> is_digit c"
  by (induction d arbitrary: n) (auto simp: is_digit_digit_char)

lemma fixed_digits_inj:
  "fixed_digits d n = fixed_digits d m \<Longrightarrow> n mod 10 ^ d = m mod 10 ^ d"
proof (induction d arbitrary: n m)
  case 0
  show ?case by simp
next
  case (Suc d)
  from Suc.prems have eq: "fixed_digits d (n div 10) = fixed_digits d (m div 10)"
    and dg: "digit_char (n mod 10) = digit_char (m mod 10)" by simp_all
  from Suc.IH [OF eq] have 1: "n div 10 mod 10 ^ d = m div 10 mod 10 ^ d" .
  from dg have 2: "n mod 10 = m mod 10" by (simp add: digit_char_inj)
  have "n mod (10 * 10 ^ d) = 10 * (n div 10 mod 10 ^ d) + n mod 10"
    by (rule mod_mult2_eq)
  moreover have "m mod (10 * 10 ^ d) = 10 * (m div 10 mod 10 ^ d) + m mod 10"
    by (rule mod_mult2_eq)
  ultimately show ?case using 1 2 by simp
qed

lemma fixed_digits_1: "fixed_digits 1 n = [digit_char (n mod 10)]"
  by simp

lemma fixed_digits_2: "fixed_digits 2 n = [digit_char (n div 10 mod 10), digit_char (n mod 10)]"
  by (simp add: numeral_2_eq_2)

subsection \<open>Fixed-point output and the file name\<close>

lemma round_half_even_nonneg: "0 \<le> x \<Longrightarrow> 0 \<le> round_half_even x"
proof -
  assume "0 \<le> x"
  then have "0 \<le> \<lfloor>x\<rfloor>" by simp
  then show ?thesis by (simp add: round_half_even_def Let_def)
qed

lemma format_fixed_split:
  "format_fixed d x =
     (if x < 0 then ''-'' else [])
     @ str_nat (nat (round_half_even (\<bar>x\<bar> * 10 ^ d)) div 10 ^ d)
     @ (if d = 0 then [] else CHR ''.'' # fixed_digits d (nat (round_half_even (\<bar>x\<bar> * 10 ^ d)) mod 10 ^ d))"
  by (simp add: format_fixed_def Let_def)

lemma format_fixed_chars:
  "c \<in> set (format_fixed d x) \<Longrightarrow> is_digit c \<or> c = CHR ''.'' \<or> c = CHR ''-''"
  by (auto simp: format_fixed_split dest: str_nat_digits fixed_digits_digits split: if_splits)

lemma format_fixed_no_sep: "CHR ''_'' \<notin> set (format_fixed d x)"
proof
  assume "CHR ''_'' \<in> set (format_fixed d x)"
  then have "is_digit CHR ''_''" using format_fixed_chars by fastforce
  then show False by (simp add: is_digit_def)
qed

lemma str_int_no_sep: "CHR ''_'' \<notin> set (str_int i)"
proof
  assume "CHR ''_'' \<in> set (str_int i)"
  then have "is_digit CHR ''_''"
    by (auto simp: str_int_def dest: str_nat_digits split: if_splits)
  then show False by (simp add: is_digit_def)
qed

lemma hd_str_nat_digit: "is_digit (hd (str_nat n))"
  using str_nat_digits [of "hd (str_nat n)" n] str_nat_not_Nil [of n] by simp

lemma str_nat_not_minus: "str_nat n \<noteq> CHR ''-'' # s"
proof
  assume "str_nat n = CHR ''-'' # s"
  then have "hd (str_nat n) = CHR ''-''" by simp
  with hd_str_nat_digit [of n] is_digit_not_special show False by metis
qed

lemma str_int_inj: "str_int i = str_int j \<Longrightarrow> i = j"
proof -
  assume eq: "str_int i = str_int j"
  show ?thesis
  proof (cases "i < 0")
    case True
    have j: "j < 0"
    proof (rule ccontr)
      assume "\<not> j < 0"
      with True eq have "str_nat (nat j) = CHR ''-'' # str_nat (nat (- i))"
        by (simp add: str_int_def)
      then show False by (simp add: str_nat_not_minus)
    qed
    with True eq have "str_nat (nat (- i)) = str_nat (nat (- j))" by (simp add: str_int_def)
    then have "nat (- i) = nat (- j)" by (rule str_nat_inj)
    with True j show ?thesis by simp
  next
    case False
    have j: "\<not> j < 0"
    proof
      assume "j < 0"
      with False eq have "str_nat (nat i) = CHR ''-'' # str_nat (nat (- j))"
        by (simp add: str_int_def)
      then show False by (simp add: str_nat_not_minus)
    qed
    with False eq have "str_nat (nat i) = str_nat (nat j)" by (simp add: str_int_def)
    then have "nat i = nat j" by (rule str_nat_inj)
    with False j show ?thesis by simp
  qed
qed

lemma format_fixed_eq_iff:
  assumes "0 < d"
  shows "format_fixed d x = format_fixed d y \<longleftrightarrow> printed d x = printed d y"
proof
  assume p: "printed d x = printed d y"
  then show "format_fixed d x = format_fixed d y"
    by (simp add: printed_def format_fixed_def)
next
  assume eq: "format_fixed d x = format_fixed d y"
  let ?mx = "nat (round_half_even (\<bar>x\<bar> * 10 ^ d))"
  let ?my = "nat (round_half_even (\<bar>y\<bar> * 10 ^ d))"
  let ?bx = "str_nat (?mx div 10 ^ d) @ CHR ''.'' # fixed_digits d (?mx mod 10 ^ d)"
  let ?by = "str_nat (?my div 10 ^ d) @ CHR ''.'' # fixed_digits d (?my mod 10 ^ d)"
  have fx: "format_fixed d x = (if x < 0 then ''-'' else []) @ ?bx"
    using assms by (simp add: format_fixed_split)
  have fy: "format_fixed d y = (if y < 0 then ''-'' else []) @ ?by"
    using assms by (simp add: format_fixed_split)
  have hx: "hd ?bx \<noteq> CHR ''-''"
    using hd_str_nat_digit [of "?mx div 10 ^ d"] is_digit_not_special str_nat_not_Nil [of "?mx div 10 ^ d"]
    by (metis hd_append2)
  have hy: "hd ?by \<noteq> CHR ''-''"
    using hd_str_nat_digit [of "?my div 10 ^ d"] is_digit_not_special str_nat_not_Nil [of "?my div 10 ^ d"]
    by (metis hd_append2)
  have sign: "(x < 0) = (y < 0)"
  proof (rule ccontr)
    assume "(x < 0) \<noteq> (y < 0)"
    then consider "x < 0" "\<not> y < 0" | "\<not> x < 0" "y < 0" by blast
    then show False
    proof cases
      case 1
      with eq fx fy have "CHR ''-'' # ?bx = ?by" by simp
      then have "hd ?by = CHR ''-''" by (metis list.sel(1))
      with hy show False by simp
    next
      case 2
      with eq fx fy have "?bx = CHR ''-'' # ?by" by simp
      then have "hd ?bx = CHR ''-''" by (metis list.sel(1))
      with hx show False by simp
    qed
  qed
  with eq fx fy have body: "?bx = ?by" by (simp split: if_splits)
  have len: "length (CHR ''.'' # fixed_digits d (?mx mod 10 ^ d))
           = length (CHR ''.'' # fixed_digits d (?my mod 10 ^ d))"
    by (simp add: length_fixed_digits)
  from body len have ip: "str_nat (?mx div 10 ^ d) = str_nat (?my div 10 ^ d)"
    and fp: "fixed_digits d (?mx mod 10 ^ d) = fixed_digits d (?my mod 10 ^ d)"
    by simp_all
  from ip have 1: "?mx div 10 ^ d = ?my div 10 ^ d" by (rule str_nat_inj)
  from fixed_digits_inj [OF fp] have 2: "?mx mod 10 ^ d = ?my mod 10 ^ d" by simp
  from 1 2 have m: "?mx = ?my" by (metis div_mult_mod_eq)
  have "0 \<le> round_half_even (\<bar>x\<bar> * 10 ^ d)" "0 \<le> round_half_even (\<bar>y\<bar> * 10 ^ d)"
    by (simp_all add: round_half_even_nonneg)
  with m have "round_half_even (\<bar>x\<bar> * 10 ^ d) = round_half_even (\<bar>y\<bar> * 10 ^ d)"
    by simp
  with sign show "printed d x = printed d y" by (simp add: printed_def)
qed

lemma sep_unique:
  "CHR ''_'' \<notin> set a \<Longrightarrow> CHR ''_'' \<notin> set b \<Longrightarrow> a @ CHR ''_'' # r = b @ CHR ''_'' # s
     \<Longrightarrow> a = b \<and> r = s"
proof (induction a arbitrary: b)
  case Nil
  then show ?case by (cases b) auto
next
  case (Cons x a)
  then show ?case by (cases b) auto
qed

lemma filename_eq_iff:
  "filename p = filename q \<longleftrightarrow>
     format_fixed 1 (pipe_od p) = format_fixed 1 (pipe_od q)
   \<and> format_fixed 1 (bend_radius_multiplier p) = format_fixed 1 (bend_radius_multiplier q)
   \<and> str_int (num_segments p) = str_int (num_segments q)
   \<and> format_fixed 1 (overlap p) = format_fixed 1 (overlap q)
   \<and> format_fixed 2 (wrap_thickness p) = format_fixed 2 (wrap_thickness q)"
proof
  assume "format_fixed 1 (pipe_od p) = format_fixed 1 (pipe_od q)
   \<and> format_fixed 1 (bend_radius_multiplier p) = format_fixed 1 (bend_radius_multiplier q)
   \<and> str_int (num_segments p) = str_int (num_segments q)
   \<and> format_fixed 1 (overlap p) = format_fixed 1 (overlap q)
   \<and> format_fixed 2 (wrap_thickness p) = format_fixed 2 (wrap_thickness q)"
  then show "filename p = filename q" by (simp add: filename_def Let_def)
next
  assume eq: "filename p = filename q"
  let ?A = "\<lambda>p. format_fixed 1 (pipe_od p)"
  let ?B = "\<lambda>p. format_fixed 1 (bend_radius_multiplier p)"
  let ?C = "\<lambda>p. str_int (num_segments p)"
  let ?D = "\<lambda>p. format_fixed 1 (overlap p)"
  let ?E = "\<lambda>p. format_fixed 2 (wrap_thickness p)"
  have shape: "filename r = ''exhaust_wrap_OD'' @ (?A r @ CHR ''_'' # (''CLR'' @ (?B r @ CHR ''_'' #
       (''S'' @ (?C r @ CHR ''_'' # (''O'' @ (?D r @ CHR ''_'' # (''MT'' @ ?E r @ ''.pdf''))))))))" for r
    by (simp add: filename_def Let_def)
  from eq have e1: "?A p @ CHR ''_'' # (''CLR'' @ (?B p @ CHR ''_'' #
       (''S'' @ (?C p @ CHR ''_'' # (''O'' @ (?D p @ CHR ''_'' # (''MT'' @ ?E p @ ''.pdf'')))))))
     = ?A q @ CHR ''_'' # (''CLR'' @ (?B q @ CHR ''_'' #
       (''S'' @ (?C q @ CHR ''_'' # (''O'' @ (?D q @ CHR ''_'' # (''MT'' @ ?E q @ ''.pdf'')))))))"
    unfolding shape [of p] shape [of q] by (simp only: same_append_eq)
  from sep_unique [OF format_fixed_no_sep format_fixed_no_sep e1]
  have a: "?A p = ?A q" and e2: "?B p @ CHR ''_'' #
       (''S'' @ (?C p @ CHR ''_'' # (''O'' @ (?D p @ CHR ''_'' # (''MT'' @ ?E p @ ''.pdf''))))) =
       ?B q @ CHR ''_'' #
       (''S'' @ (?C q @ CHR ''_'' # (''O'' @ (?D q @ CHR ''_'' # (''MT'' @ ?E q @ ''.pdf'')))))"
    by simp_all
  from sep_unique [OF format_fixed_no_sep format_fixed_no_sep e2]
  have b: "?B p = ?B q" and e3: "?C p @ CHR ''_'' # (''O'' @ (?D p @ CHR ''_'' # (''MT'' @ ?E p @ ''.pdf'')))
      = ?C q @ CHR ''_'' # (''O'' @ (?D q @ CHR ''_'' # (''MT'' @ ?E q @ ''.pdf'')))"
    by simp_all
  from sep_unique [OF str_int_no_sep str_int_no_sep e3]
  have c: "?C p = ?C q" and e4: "?D p @ CHR ''_'' # (''MT'' @ ?E p @ ''.pdf'')
      = ?D q @ CHR ''_'' # (''MT'' @ ?E q @ ''.pdf'')"
    by simp_all
  from sep_unique [OF format_fixed_no_sep format_fixed_no_sep e4]
  have d: "?D p = ?D q" and e: "?E p = ?E q"
    by simp_all
  from a b c d e show "?A p = ?A q \<and> ?B p = ?B q \<and> ?C p = ?C q \<and> ?D p = ?D q \<and> ?E p = ?E q"
    by simp
qed

text \<open>
  Claim C9, as amended. The file name encodes the five parameters up to the precision it
  prints them with: two pipe specifications get the same file name if and only if they
  agree on the segment count and on the printed values (sign, and magnitude rounded with
  ties to even) of diameter, centerline multiplier and overlap to one decimal place and
  of wrap thickness to two decimal places.
\<close>

theorem filename_injective_on_printed_values:
  "filename p = filename q \<longleftrightarrow>
     printed 1 (pipe_od p) = printed 1 (pipe_od q)
   \<and> printed 1 (bend_radius_multiplier p) = printed 1 (bend_radius_multiplier q)
   \<and> num_segments p = num_segments q
   \<and> printed 1 (overlap p) = printed 1 (overlap q)
   \<and> printed 2 (wrap_thickness p) = printed 2 (wrap_thickness q)"
  using str_int_inj [of "num_segments p" "num_segments q"]
  by (auto simp: filename_eq_iff format_fixed_eq_iff)

lemma str_nat_small: "n < 10 \<Longrightarrow> str_nat n = [digit_char n]"
  by (simp add: str_nat.simps [of n])

lemma str_nat_large: "\<not> n < 10 \<Longrightarrow> str_nat n = str_nat (n div 10) @ [digit_char (n mod 10)]"
  by (simp add: str_nat.simps [of n])

theorem filename_injective_on_printed_values_witness:
  "filename \<lparr>pipe_od = 100, bend_radius_multiplier = 1.5, bend_angle = 90,
             num_segments = 5, wrap_thickness = 6.15, overlap = 10\<rparr>
     = filename \<lparr>pipe_od = 100.03125, bend_radius_multiplier = 1.5, bend_angle = 90,
             num_segments = 5, wrap_thickness = 6.15, overlap = 10\<rparr>
   \<and> filename \<lparr>pipe_od = 100, bend_radius_multiplier = 1.5, bend_angle = 90,
             num_segments = 5, wrap_thickness = 6.15, overlap = 10\<rparr>
     \<noteq> filename \<lparr>pipe_od = 100.1, bend_radius_multiplier = 1.5, bend_angle = 90,
             num_segments = 5, wrap_thickness = 6.15, overlap = 10\<rparr>"
  using filename_injective_on_printed_values [of
      "\<lparr>pipe_od = 100, bend_radius_multiplier = 1.5, bend_angle = 90,
        num_segments = 5, wrap_thickness = 6.15, overlap = 10\<rparr>"
      "\<lparr>pipe_od = 100.03125, bend_radius_multiplier = 1.5, bend_angle = 90,
        num_segments = 5, wrap_thickness = 6.15, overlap = 10\<rparr>"]
    filename_injective_on_printed_values [of
      "\<lparr>pipe_od = 100, bend_radius_multiplier = 1.5, bend_angle = 90,
        num_segments = 5, wrap_thickness = 6.15, overlap = 10\<rparr>"
      "\<lparr>pipe_od = 100.1, bend_radius_multiplier = 1.5, bend_angle = 90,
        num_segments = 5, wrap_thickness = 6.15, overlap = 10\<rparr>"]
  by (simp add: printed_def round_half_even_def Let_def)

text \<open>
  Two diameters that differ below the printed precision: both specifications are written
  to the same file.
\<close>

theorem filename_collision_counterexample:
  "pipe_od \<lparr>pipe_od = 100, bend_radius_multiplier = 1.5, bend_angle = 90,
            num_segments = 5, wrap_thickness = 6.15, overlap = 10\<rparr>
     \<noteq> pipe_od \<lparr>pipe_od = 100.03125, bend_radius_multiplier = 1.5, bend_angle = 90,
            num_segments = 5, wrap_thickness = 6.15, overlap = 10\<rparr>
   \<and> filename \<lparr>pipe_od = 100, bend_radius_multiplier = 1.5, bend_angle = 90,
            num_segments = 5, wrap_thickness = 6.15, overlap = 10\<rparr>
       = ''exhaust_wrap_OD100.0_CLR1.5_S5_O10.0_MT6.15.pdf''
   \<and> filename \<lparr>pipe_od = 100.03125, bend_radius_multiplier = 1.5, bend_angle = 90,
            num_segments = 5, wrap_thickness = 6.15, overlap = 10\<rparr>
       = ''exhaust_wrap_OD100.0_CLR1.5_S5_O10.0_MT6.15.pdf''"
proof -
  have r1: "round_half_even (\<bar>100\<bar> * 10 ^ 1) = 1000"
    by (simp add: round_half_even_def Let_def)
  have r2: "round_half_even (\<bar>100.03125\<bar> * 10 ^ 1) = 1000"
    by (simp add: round_half_even_def Let_def)
  have r3: "round_half_even (\<bar>1.5\<bar> * 10 ^ 1) = 15"
    by (simp add: round_half_even_def Let_def)
  have r4: "round_half_even (\<bar>10\<bar> * 10 ^ 1) = 100"
    by (simp add: round_half_even_def Let_def)
  have r5: "round_half_even (\<bar>6.15\<bar> * 10 ^ 2) = 615"
    by (simp add: round_half_even_def Let_def)
  have s100: "str_nat 100 = ''100''"
    by (simp add: str_nat_small str_nat_large digit_char_def)
  have s10: "str_nat 10 = ''10''"
    by (simp add: str_nat_small str_nat_large digit_char_def)
  have s1: "str_nat (Suc 0) = ''1''" and s5: "str_nat 5 = ''5''" and s6: "str_nat 6 = ''6''"
    by (simp_all add: str_nat_small digit_char_def)
  have a: "format_fixed 1 100 = ''100.0''"
    unfolding format_fixed_def Let_def r1 by (simp add: s100 digit_char_def)
  have b: "format_fixed 1 100.03125 = ''100.0''"
    unfolding format_fixed_def Let_def r2 by (simp add: s100 digit_char_def)
  have c: "format_fixed 1 1.5 = ''1.5''"
    unfolding format_fixed_def Let_def r3 by (simp add: s1 digit_char_def)
  have d: "str_int 5 = ''5''"
    by (simp add: str_int_def s5)
  have e: "format_fixed 1 10 = ''10.0''"
    unfolding format_fixed_def Let_def r4 by (simp add: s10 digit_char_def)
  have f: "format_fixed 2 6.15 = ''6.15''"
    unfolding format_fixed_def Let_def r5 by (simp add: s6 fixed_digits_2 digit_char_def)
  show ?thesis
    unfolding filename_def Let_def
    by (simp only: PipeSpec.select_convs a b c d e f) simp
qed

end
